theory Spec2Isabelle
  imports Complex_Main "HOL-Library.Sublist"
begin

section \<open>The single-arm pick-and-place cycle (src/singleHand/app.js)\<close>

text \<open>
  JavaScript numbers are modelled as reals, \<open>Math.PI\<close> as \<open>pi\<close>, and the operations of
  one frame are taken exactly. The runs for which the properties are evaluated either use
  frame deltas whose sums are doubles, or round the sum of elapsed time to the nearest
  double at every frame, as \<open>cycleTime += delta * speed\<close> does. Meshes, materials, lights, the camera
  and the text written to the page are not modelled: of a scene-graph object only its
  identity, its parent and its local position are kept. The file holds a further script
  after this one (a press-and-wrap variant with a cycle of 14 s), which is not modelled.
\<close>

subsection \<open>MACHINE_CONFIG\<close>

record station_cfg =
  x :: real
  y :: real
  z :: real

record top_cfg = station_cfg +
  platformHeight :: real

record tray_cfg = station_cfg +
  rows :: nat
  cols :: nat

definition topStation :: top_cfg where
  "topStation = \<lparr>x = 0, y = 0, z = -7, platformHeight = 3/10\<rparr>"

definition leftMachine :: station_cfg where
  "leftMachine = \<lparr>x = -6, y = 0, z = 0\<rparr>"

definition rightMachine :: station_cfg where
  "rightMachine = \<lparr>x = 6, y = 0, z = 0\<rparr>"

definition leftTray :: tray_cfg where
  "leftTray = \<lparr>x = -6, y = 2/10, z = 4, rows = 2, cols = 4\<rparr>"

definition rightTray :: tray_cfg where
  "rightTray = \<lparr>x = 6, y = 2/10, z = 4, rows = 2, cols = 4\<rparr>"

subsection \<open>The animation timeline\<close>

datatype phase_name =
  Spawn | Pick | Transport_to_wrapper | Insert_wrapper | Wrapping
  | Exit_wrapper | Transport_to_tray | Place_in_tray | Reset

text \<open>A phase of a timeline, \<open>'n\<close> being the type of the phase names; the label, shown on the
  page only, is left out.\<close>

record 'n phase =
  name :: 'n
  start :: real
  end' :: real

definition CYCLE_DURATION :: real where
  "CYCLE_DURATION = 8"

definition PHASES :: "phase_name phase list" where
  "PHASES =
    [\<lparr>name = Spawn, start = 0, end' = 1/2\<rparr>,
     \<lparr>name = Pick, start = 1/2, end' = 3/2\<rparr>,
     \<lparr>name = Transport_to_wrapper, start = 3/2, end' = 3\<rparr>,
     \<lparr>name = Insert_wrapper, start = 3, end' = 7/2\<rparr>,
     \<lparr>name = Wrapping, start = 7/2, end' = 11/2\<rparr>,
     \<lparr>name = Exit_wrapper, start = 11/2, end' = 6\<rparr>,
     \<lparr>name = Transport_to_tray, start = 6, end' = 7\<rparr>,
     \<lparr>name = Place_in_tray, start = 7, end' = 15/2\<rparr>,
     \<lparr>name = Reset, start = 15/2, end' = 8\<rparr>]"

text \<open>The remainder operator of JavaScript: the quotient is truncated towards zero.\<close>

definition js_trunc :: "real \<Rightarrow> int" where
  "js_trunc v = (if 0 \<le> v then \<lfloor>v\<rfloor> else \<lceil>v\<rceil>)"

definition js_rem :: "real \<Rightarrow> real \<Rightarrow> real" where
  "js_rem a b = a - b * of_int (js_trunc (a / b))"

text \<open>The loop of \<open>animate\<close> that looks for the current phase: the first match wins.\<close>

fun findPhase :: "real \<Rightarrow> 'n phase list \<Rightarrow> 'n phase option" where
  "findPhase loopTime [] = None"
| "findPhase loopTime (p # ps) =
     (if loopTime \<ge> start p \<and> loopTime < end' p then Some p else findPhase loopTime ps)"

definition phaseProgress :: "real \<Rightarrow> 'n phase \<Rightarrow> real" where
  "phaseProgress loopTime currentPhase =
     (loopTime - start currentPhase) / (end' currentPhase - start currentPhase)"

subsection \<open>Easing\<close>

definition easeInOutCubic :: "real \<Rightarrow> real" where
  "easeInOutCubic t = (if t < 1/2 then 4 * t * t * t else 1 - (-2 * t + 2) ^ 3 / 2)"

definition easeInOutQuad :: "real \<Rightarrow> real" where
  "easeInOutQuad t = (if t < 1/2 then 2 * t * t else 1 - (-2 * t + 2) ^ 2 / 2)"

subsection \<open>Bundles and the machine state\<close>

datatype parent = Detached | Scene | CenterPivot

datatype bundle_kind = Raw | Wrapped

text \<open>
  A bundle object. \<open>ident\<close> stands for the identity of the JavaScript object: every
  \<open>createRawBundle()\<close> and \<open>createWrappedBundle()\<close> makes a new one.
\<close>

record item =
  ident :: nat
  kind :: bundle_kind
  parent :: parent
  position :: "real \<times> real \<times> real"

definition createRawBundle :: "nat \<Rightarrow> item" where
  "createRawBundle i = \<lparr>ident = i, kind = Raw, parent = Detached, position = (0, 0, 0)\<rparr>"

definition createWrappedBundle :: "nat \<Rightarrow> item" where
  "createWrappedBundle i = \<lparr>ident = i, kind = Wrapped, parent = Detached, position = (0, 0, 0)\<rparr>"

text \<open>
  The globals of the script and the fields of \<open>machine\<close> that the animation reads or
  writes. \<open>nextId\<close> numbers the objects created so far. \<open>attachCalls\<close> is the trace of
  the calls of \<open>attach\<close>, (new parent, bundle), in the order they were made.
\<close>

record world =
  speed :: real
  isPaused :: bool
  cycleTime :: real
  cycleCount :: int
  selectedStation :: string
  pivotRotationY :: real
  jaw0X :: real
  jaw1X :: real
  leftDiskRotationY :: real
  rightDiskRotationY :: real
  leftBundles :: "item list"
  rightBundles :: "item list"
  currentBundle :: "item option"
  currentBundleIsWrapped :: bool
  nextId :: nat
  attachCalls :: "(parent \<times> nat) list"

text \<open>The state after \<open>init()\<close>, before the first frame.\<close>

definition initial :: world where
  "initial = \<lparr>speed = 1, isPaused = False, cycleTime = 0, cycleCount = 0,
     selectedStation = ''left'', pivotRotationY = 0, jaw0X = -(1/4), jaw1X = 1/4,
     leftDiskRotationY = 0, rightDiskRotationY = 0, leftBundles = [], rightBundles = [],
     currentBundle = None, currentBundleIsWrapped = False, nextId = 0, attachCalls = []\<rparr>"

text \<open>
  \<open>Object3D.attach\<close> re-parents the object and keeps its world transform; every call
  site sets the local position right after it, so only the new parent is recorded.
\<close>

definition attach :: "parent \<Rightarrow> item \<Rightarrow> world \<Rightarrow> world" where
  "attach p b w = w\<lparr>currentBundle := Some (b\<lparr>parent := p\<rparr>),
                     attachCalls := attachCalls w @ [(p, ident b)]\<rparr>"

definition setCurrentPosition :: "real \<times> real \<times> real \<Rightarrow> world \<Rightarrow> world" where
  "setCurrentPosition v w =
     w\<lparr>currentBundle := map_option (\<lambda>b. b\<lparr>position := v\<rparr>) (currentBundle w)\<rparr>"

definition setJaws :: "real \<Rightarrow> world \<Rightarrow> world" where
  "setJaws d w = w\<lparr>jaw0X := - d, jaw1X := d\<rparr>"

subsection \<open>Target station\<close>

definition getTargetStation :: "world \<Rightarrow> int \<Rightarrow> string" where
  "getTargetStation w cycleNum =
     (if selectedStation w = ''left'' then ''left''
      else if selectedStation w = ''right'' then ''right''
      else if cycleNum mod 2 = 0 then ''left'' else ''right'')"

subsection \<open>Tray slots\<close>

definition slotRow :: "nat \<Rightarrow> nat" where
  "slotRow slotIndex = slotIndex div 4"

definition slotCol :: "nat \<Rightarrow> nat" where
  "slotCol slotIndex = slotIndex mod 4"

definition slotPosition :: "tray_cfg \<Rightarrow> nat \<Rightarrow> real \<times> real \<times> real" where
  "slotPosition trayCfg slotIndex =
     (x trayCfg + (of_nat (slotCol slotIndex) * (7/10) - 105/100),
      y trayCfg + 6/10,
      z trayCfg + (of_nat (slotRow slotIndex) * (7/10) - 35/100))"

subsection \<open>One frame of the machine animation\<close>

definition targetIsLeft :: "world \<Rightarrow> bool" where
  "targetIsLeft w = (getTargetStation w \<lfloor>cycleTime w / CYCLE_DURATION\<rfloor> = ''left'')"

definition updateMachineAnimation :: "phase_name \<Rightarrow> real \<Rightarrow> real \<Rightarrow> world \<Rightarrow> world" where
  "updateMachineAnimation phaseName progress loopTime w =
    (let t = easeInOutCubic progress;
         isLeft = targetIsLeft w;
         topCfg = topStation;
         machineCfg = (if isLeft then leftMachine else rightMachine);
         trayCfg = (if isLeft then leftTray else rightTray)
     in case phaseName of
       Spawn \<Rightarrow>
         (let w1 = (if currentBundle w = None \<and> progress < 1/10
                    then w\<lparr>currentBundle :=
                             Some ((createRawBundle (nextId w))
                                   \<lparr>position := (x topCfg, platformHeight topCfg + 4/10, z topCfg),
                                    parent := Scene\<rparr>),
                           nextId := Suc (nextId w),
                           currentBundleIsWrapped := False\<rparr>
                    else w)
          in setJaws (35/100) (w1\<lparr>pivotRotationY := 0\<rparr>))
     | Pick \<Rightarrow>
         (let pickAngle = t * 0;
              w1 = w\<lparr>pivotRotationY := pickAngle\<rparr>;
              jawDist = 35/100 - t * (1/10);
              w2 = setJaws jawDist w1
          in case currentBundle w2 of
               Some b \<Rightarrow> if t > 1/2
                          then setCurrentPosition (0, 2/10, -(475/100)) (attach CenterPivot b w2)
                          else w2
             | None \<Rightarrow> w2)
     | Transport_to_wrapper \<Rightarrow>
         (let targetAngle = (if isLeft then pi / 2 else - pi / 2)
          in setJaws (25/100) (w\<lparr>pivotRotationY := t * targetAngle\<rparr>))
     | Insert_wrapper \<Rightarrow>
         (let insertAngle = (if isLeft then pi / 2 else - pi / 2);
              w1 = w\<lparr>pivotRotationY := insertAngle\<rparr>;
              releaseJaw = 25/100 + t * (1/10);
              w2 = setJaws releaseJaw w1
          in case currentBundle w2 of
               Some b \<Rightarrow> if t > 1/2 \<and> parent b \<noteq> Scene
                          then setCurrentPosition (x machineCfg, 15/10, z machineCfg)
                                 (attach Scene b w2)
                          else w2
             | None \<Rightarrow> w2)
     | Wrapping \<Rightarrow>
         (let w1 = (if isLeft then w\<lparr>leftDiskRotationY := leftDiskRotationY w + 1/10\<rparr>
                    else w\<lparr>rightDiskRotationY := rightDiskRotationY w + 1/10\<rparr>);
              w2 = setCurrentPosition (x machineCfg, 15/10, z machineCfg) w1
          in if t > 9/10 \<and> \<not> currentBundleIsWrapped w2 \<and> currentBundle w2 \<noteq> None
             then w2\<lparr>currentBundle :=
                       Some ((createWrappedBundle (nextId w2))
                             \<lparr>position := (x machineCfg, 15/10, z machineCfg),
                              parent := Scene\<rparr>),
                     nextId := Suc (nextId w2),
                     currentBundleIsWrapped := True\<rparr>
             else w2)
     | Exit_wrapper \<Rightarrow>
         (let exitAngle = (if isLeft then pi / 2 else - pi / 2);
              w1 = w\<lparr>pivotRotationY := exitAngle\<rparr>;
              grabJaw = 35/100 - t * (1/10);
              w2 = setJaws grabJaw w1
          in case currentBundle w2 of
               Some b \<Rightarrow> if t > 1/2
                          then setCurrentPosition (0, 2/10, -(475/100)) (attach CenterPivot b w2)
                          else w2
             | None \<Rightarrow> w2)
     | Transport_to_tray \<Rightarrow>
         (let trayAngle = (if isLeft then pi / 2 + pi / 4 else - pi / 2 - pi / 4);
              startAngle = (if isLeft then pi / 2 else - pi / 2)
          in setJaws (25/100)
               (w\<lparr>pivotRotationY := startAngle + t * (trayAngle - startAngle)\<rparr>))
     | Place_in_tray \<Rightarrow>
         (let placeAngle = (if isLeft then pi / 2 + pi / 4 else - pi / 2 - pi / 4);
              w1 = w\<lparr>pivotRotationY := placeAngle\<rparr>;
              dropJaw = 25/100 + t * (15/100);
              w2 = setJaws dropJaw w1
          in case currentBundle w2 of
               Some b \<Rightarrow>
                 if t > 1/2
                 then (let w3 = attach Scene b w2;
                           trayBundles = (if isLeft then leftBundles w3 else rightBundles w3);
                           slotIndex = length trayBundles;
                           w4 = setCurrentPosition (slotPosition trayCfg slotIndex) w3;
                           placed = the (currentBundle w4);
                           w5 = (if isLeft then w4\<lparr>leftBundles := leftBundles w4 @ [placed]\<rparr>
                                 else w4\<lparr>rightBundles := rightBundles w4 @ [placed]\<rparr>)
                       in w5\<lparr>currentBundle := None, currentBundleIsWrapped := False\<rparr>)
                 else w2
             | None \<Rightarrow> w2)
     | Reset \<Rightarrow>
         (let finalAngle = (if isLeft then pi / 2 + pi / 4 else - pi / 2 - pi / 4);
              w1 = w\<lparr>pivotRotationY := finalAngle - t * finalAngle\<rparr>;
              w2 = setJaws (35/100) w1;
              w3 = (if length (leftBundles w2) > 8
                    then w2\<lparr>leftBundles := tl (leftBundles w2)\<rparr> else w2);
              w4 = (if length (rightBundles w3) > 8
                    then w3\<lparr>rightBundles := tl (rightBundles w3)\<rparr> else w3)
          in w4))"

subsection \<open>The animation loop\<close>

text \<open>
  One call of \<open>animate\<close>; \<open>delta\<close> is what \<open>clock.getDelta()\<close> returned for the frame.
\<close>

definition animate :: "real \<Rightarrow> world \<Rightarrow> world" where
  "animate delta w =
    (if \<not> isPaused w then
       (let w1 = w\<lparr>cycleTime := cycleTime w + delta * speed w\<rparr>;
            loopTime = js_rem (cycleTime w1) CYCLE_DURATION;
            newCycleCount = \<lfloor>cycleTime w1 / CYCLE_DURATION\<rfloor>;
            w2 = (if newCycleCount \<noteq> cycleCount w1 then w1\<lparr>cycleCount := newCycleCount\<rparr> else w1)
        in case findPhase loopTime PHASES of
             Some currentPhase \<Rightarrow>
               updateMachineAnimation (name currentPhase)
                 (phaseProgress loopTime currentPhase) loopTime w2
           | None \<Rightarrow> w2)
     else w)"

text \<open>A run of frames, one \<open>delta\<close> each, oldest first.\<close>

fun frames :: "real list \<Rightarrow> world \<Rightarrow> world" where
  "frames [] w = w"
| "frames (delta # deltas) w = frames deltas (animate delta w)"

subsection \<open>The station selector of the page\<close>

text \<open>The \<open>change\<close> handler of \<open>stationSelect\<close>; \<open>v\<close> is \<open>e.target.value\<close>.\<close>

definition stationSelectChange :: "string \<Rightarrow> world \<Rightarrow> world" where
  "stationSelectChange v w = w\<lparr>selectedStation := v\<rparr>"

section \<open>The two-arm cycle (src/twoHand/app.js)\<close>

text \<open>
  The same conventions. The left arm serves the left machine and tray and the right arm the
  right ones, in every cycle. The glow meshes and the indicator light, which only carry
  material settings, are left out, and with them \<open>glowEnabled\<close>; so is the turning of a
  bundle about its own axis while it is wrapped.
\<close>

subsection \<open>MACHINE_CONFIG and timeline\<close>

definition topStation2 :: top_cfg where
  "topStation2 = \<lparr>x = 0, y = 0, z = -7, platformHeight = 3/10\<rparr>"

definition leftMachine2 :: station_cfg where
  "leftMachine2 = \<lparr>x = -6, y = 0, z = 0\<rparr>"

definition rightMachine2 :: station_cfg where
  "rightMachine2 = \<lparr>x = 6, y = 0, z = 0\<rparr>"

definition leftTray2 :: tray_cfg where
  "leftTray2 = \<lparr>x = -6, y = 2/10, z = 4, rows = 2, cols = 4\<rparr>"

definition rightTray2 :: tray_cfg where
  "rightTray2 = \<lparr>x = 6, y = 2/10, z = 4, rows = 2, cols = 4\<rparr>"

datatype phase_name2 =
  Spawn2 | Simultaneous_pick | Simultaneous_transport | Insert_wrappers | Wrapping_process
  | Exit_wrappers | Simultaneous_to_trays | Place_in_trays | Reset2

definition CYCLE_DURATION2 :: real where
  "CYCLE_DURATION2 = 12"

definition PHASES2 :: "phase_name2 phase list" where
  "PHASES2 =
    [\<lparr>name = Spawn2, start = 0, end' = 1\<rparr>,
     \<lparr>name = Simultaneous_pick, start = 1, end' = 5/2\<rparr>,
     \<lparr>name = Simultaneous_transport, start = 5/2, end' = 9/2\<rparr>,
     \<lparr>name = Insert_wrappers, start = 9/2, end' = 5\<rparr>,
     \<lparr>name = Wrapping_process, start = 5, end' = 15/2\<rparr>,
     \<lparr>name = Exit_wrappers, start = 15/2, end' = 8\<rparr>,
     \<lparr>name = Simultaneous_to_trays, start = 8, end' = 19/2\<rparr>,
     \<lparr>name = Place_in_trays, start = 19/2, end' = 21/2\<rparr>,
     \<lparr>name = Reset2, start = 21/2, end' = 12\<rparr>]"

subsection \<open>Bundles and the machine state\<close>

datatype parent2 = Detached2 | Scene2 | LeftArmPivot | RightArmPivot

record item2 =
  ident2 :: nat
  kind2 :: bundle_kind
  parent2 :: parent2
  position2 :: "real \<times> real \<times> real"

definition createRawBundle2 :: "nat \<Rightarrow> item2" where
  "createRawBundle2 i =
     \<lparr>ident2 = i, kind2 = Raw, parent2 = Detached2, position2 = (0, 0, 0)\<rparr>"

definition createWrappedBundle2 :: "nat \<Rightarrow> item2" where
  "createWrappedBundle2 i =
     \<lparr>ident2 = i, kind2 = Wrapped, parent2 = Detached2, position2 = (0, 0, 0)\<rparr>"

record world2 =
  speed2 :: real
  isPaused2 :: bool
  cycleTime2 :: real
  cycleCount2 :: int
  leftCount :: nat
  rightCount :: nat
  leftArmPivotRotationY :: real
  rightArmPivotRotationY :: real
  leftJaw0X :: real
  leftJaw1X :: real
  rightJaw0X :: real
  rightJaw1X :: real
  leftMachineDiskRotationY :: real
  rightMachineDiskRotationY :: real
  leftBundles2 :: "item2 list"
  rightBundles2 :: "item2 list"
  leftBundle :: "item2 option"
  rightBundle :: "item2 option"
  leftBundleWrapped :: bool
  rightBundleWrapped :: bool
  nextId2 :: nat
  attachCalls2 :: "(parent2 \<times> nat) list"

definition initial2 :: world2 where
  "initial2 = \<lparr>speed2 = 1, isPaused2 = False, cycleTime2 = 0, cycleCount2 = 0,
     leftCount = 0, rightCount = 0, leftArmPivotRotationY = 0, rightArmPivotRotationY = 0,
     leftJaw0X = -(1/4), leftJaw1X = 1/4, rightJaw0X = -(1/4), rightJaw1X = 1/4,
     leftMachineDiskRotationY = 0, rightMachineDiskRotationY = 0,
     leftBundles2 = [], rightBundles2 = [], leftBundle = None, rightBundle = None,
     leftBundleWrapped = False, rightBundleWrapped = False, nextId2 = 0, attachCalls2 = []\<rparr>"

text \<open>All four jaws are set together in every phase.\<close>

definition setJaws2 :: "real \<Rightarrow> world2 \<Rightarrow> world2" where
  "setJaws2 d w = w\<lparr>leftJaw0X := - d, leftJaw1X := d, rightJaw0X := - d, rightJaw1X := d\<rparr>"

text \<open>\<open>p.attach(machine.leftBundle)\<close> followed by \<open>position.set\<close>, and the same on the right.\<close>

definition attachLeft :: "parent2 \<Rightarrow> real \<times> real \<times> real \<Rightarrow> item2 \<Rightarrow> world2 \<Rightarrow> world2" where
  "attachLeft p v b w =
     w\<lparr>leftBundle := Some (b\<lparr>parent2 := p, position2 := v\<rparr>),
       attachCalls2 := attachCalls2 w @ [(p, ident2 b)]\<rparr>"

definition attachRight :: "parent2 \<Rightarrow> real \<times> real \<times> real \<Rightarrow> item2 \<Rightarrow> world2 \<Rightarrow> world2" where
  "attachRight p v b w =
     w\<lparr>rightBundle := Some (b\<lparr>parent2 := p, position2 := v\<rparr>),
       attachCalls2 := attachCalls2 w @ [(p, ident2 b)]\<rparr>"

subsection \<open>One frame of the two arms\<close>

definition updateMachineAnimation2 ::
  "phase_name2 \<Rightarrow> real \<Rightarrow> real \<Rightarrow> world2 \<Rightarrow> world2" where
  "updateMachineAnimation2 phaseName progress loopTime w =
    (let t = easeInOutCubic progress;
         topCfg = topStation2;
         leftMachineCfg = leftMachine2;
         rightMachineCfg = rightMachine2;
         leftTrayCfg = leftTray2;
         rightTrayCfg = rightTray2
     in case phaseName of
       Spawn2 \<Rightarrow>
         (let w1 = (if leftBundle w = None \<and> progress < 1/10
                    then w\<lparr>leftBundle :=
                             Some ((createRawBundle2 (nextId2 w))
                                   \<lparr>position2 := (x topCfg - 1/2, platformHeight topCfg + 4/10,
                                                  z topCfg),
                                    parent2 := Scene2\<rparr>),
                           nextId2 := Suc (nextId2 w),
                           leftBundleWrapped := False\<rparr>
                    else w);
              w2 = (if rightBundle w1 = None \<and> progress < 1/10
                    then w1\<lparr>rightBundle :=
                             Some ((createRawBundle2 (nextId2 w1))
                                   \<lparr>position2 := (x topCfg + 1/2, platformHeight topCfg + 4/10,
                                                  z topCfg),
                                    parent2 := Scene2\<rparr>),
                           nextId2 := Suc (nextId2 w1),
                           rightBundleWrapped := False\<rparr>
                    else w1)
          in setJaws2 (35/100) (w2\<lparr>leftArmPivotRotationY := 0, rightArmPivotRotationY := 0\<rparr>))
     | Simultaneous_pick \<Rightarrow>
         (let w1 = w\<lparr>leftArmPivotRotationY := 0, rightArmPivotRotationY := 0\<rparr>;
              jawDist = 35/100 - t * (1/10);
              w2 = setJaws2 jawDist w1;
              w3 = (case leftBundle w2 of
                      Some b \<Rightarrow> if t > 1/2
                                 then attachLeft LeftArmPivot (0, 2/10, -(475/100)) b w2 else w2
                    | None \<Rightarrow> w2)
          in case rightBundle w3 of
               Some b \<Rightarrow> if t > 1/2
                          then attachRight RightArmPivot (0, 2/10, -(475/100)) b w3 else w3
             | None \<Rightarrow> w3)
     | Simultaneous_transport \<Rightarrow>
         setJaws2 (25/100)
           (w\<lparr>leftArmPivotRotationY := easeInOutQuad t * (pi / 2),
              rightArmPivotRotationY := easeInOutQuad t * (- pi / 2)\<rparr>)
     | Insert_wrappers \<Rightarrow>
         (let w1 = w\<lparr>leftArmPivotRotationY := pi / 2, rightArmPivotRotationY := - pi / 2\<rparr>;
              releaseJaw = 25/100 + t * (15/100);
              w2 = setJaws2 releaseJaw w1;
              w3 = (case leftBundle w2 of
                      Some b \<Rightarrow> if t > 1/2 \<and> parent2 b \<noteq> Scene2
                                 then attachLeft Scene2
                                        (x leftMachineCfg, 15/10, z leftMachineCfg) b w2
                                 else w2
                    | None \<Rightarrow> w2)
          in case rightBundle w3 of
               Some b \<Rightarrow> if t > 1/2 \<and> parent2 b \<noteq> Scene2
                          then attachRight Scene2
                                 (x rightMachineCfg, 15/10, z rightMachineCfg) b w3
                          else w3
             | None \<Rightarrow> w3)
     | Wrapping_process \<Rightarrow>
         (let w1 = w\<lparr>leftMachineDiskRotationY := leftMachineDiskRotationY w + 15/100,
                      rightMachineDiskRotationY := rightMachineDiskRotationY w + 15/100\<rparr>;
              w2 = w1\<lparr>leftBundle :=
                        map_option (\<lambda>b. b\<lparr>position2 := (x leftMachineCfg, 15/10, z leftMachineCfg)\<rparr>)
                          (leftBundle w1)\<rparr>;
              w3 = w2\<lparr>rightBundle :=
                        map_option (\<lambda>b. b\<lparr>position2 := (x rightMachineCfg, 15/10, z rightMachineCfg)\<rparr>)
                          (rightBundle w2)\<rparr>;
              w4 = (case leftBundle w3 of
                      Some b \<Rightarrow>
                        if t > 85/100 \<and> \<not> leftBundleWrapped w3
                        then w3\<lparr>leftBundle :=
                                  Some ((createWrappedBundle2 (nextId2 w3))
                                        \<lparr>position2 := position2 b, parent2 := Scene2\<rparr>),
                                nextId2 := Suc (nextId2 w3),
                                leftBundleWrapped := True\<rparr>
                        else w3
                    | None \<Rightarrow> w3)
          in case rightBundle w4 of
               Some b \<Rightarrow>
                 if t > 85/100 \<and> \<not> rightBundleWrapped w4
                 then w4\<lparr>rightBundle :=
                           Some ((createWrappedBundle2 (nextId2 w4))
                                 \<lparr>position2 := position2 b, parent2 := Scene2\<rparr>),
                         nextId2 := Suc (nextId2 w4),
                         rightBundleWrapped := True\<rparr>
                 else w4
             | None \<Rightarrow> w4)
     | Exit_wrappers \<Rightarrow>
         (let w1 = w\<lparr>leftArmPivotRotationY := pi / 2, rightArmPivotRotationY := - pi / 2\<rparr>;
              grabJaw = 35/100 - t * (1/10);
              w2 = setJaws2 grabJaw w1;
              w3 = (case leftBundle w2 of
                      Some b \<Rightarrow> if t > 1/2
                                 then attachLeft LeftArmPivot (0, 2/10, -(475/100)) b w2 else w2
                    | None \<Rightarrow> w2)
          in case rightBundle w3 of
               Some b \<Rightarrow> if t > 1/2
                          then attachRight RightArmPivot (0, 2/10, -(475/100)) b w3 else w3
             | None \<Rightarrow> w3)
     | Simultaneous_to_trays \<Rightarrow>
         setJaws2 (25/100)
           (w\<lparr>leftArmPivotRotationY := pi / 2 + easeInOutQuad t * (pi / 4),
              rightArmPivotRotationY := - pi / 2 + easeInOutQuad t * (- pi / 4)\<rparr>)
     | Place_in_trays \<Rightarrow>
         (let w1 = w\<lparr>leftArmPivotRotationY := pi / 2 + pi / 4,
                      rightArmPivotRotationY := - pi / 2 - pi / 4\<rparr>;
              dropJaw = 25/100 + t * (15/100);
              w2 = setJaws2 dropJaw w1;
              w3 = (case leftBundle w2 of
                      Some b \<Rightarrow>
                        if t > 1/2
                        then (let slotIndex = length (leftBundles2 w2);
                                  w' = attachLeft Scene2 (slotPosition leftTrayCfg slotIndex) b w2
                              in w'\<lparr>leftBundles2 := leftBundles2 w' @ [the (leftBundle w')],
                                    leftBundle := None, leftBundleWrapped := False,
                                    leftCount := Suc (leftCount w')\<rparr>)
                        else w2
                    | None \<Rightarrow> w2)
          in case rightBundle w3 of
               Some b \<Rightarrow>
                 if t > 1/2
                 then (let slotIndex = length (rightBundles2 w3);
                           w' = attachRight Scene2 (slotPosition rightTrayCfg slotIndex) b w3
                       in w'\<lparr>rightBundles2 := rightBundles2 w' @ [the (rightBundle w')],
                             rightBundle := None, rightBundleWrapped := False,
                             rightCount := Suc (rightCount w')\<rparr>)
                 else w3
             | None \<Rightarrow> w3)
     | Reset2 \<Rightarrow>
         (let leftFinalAngle = pi / 2 + pi / 4;
              rightFinalAngle = - pi / 2 - pi / 4;
              w1 = w\<lparr>leftArmPivotRotationY := leftFinalAngle - easeInOutQuad t * leftFinalAngle,
                      rightArmPivotRotationY :=
                        rightFinalAngle - easeInOutQuad t * rightFinalAngle\<rparr>;
              w2 = setJaws2 (35/100) w1;
              w3 = (if length (leftBundles2 w2) > 8
                    then w2\<lparr>leftBundles2 := tl (leftBundles2 w2)\<rparr> else w2);
              w4 = (if length (rightBundles2 w3) > 8
                    then w3\<lparr>rightBundles2 := tl (rightBundles2 w3)\<rparr> else w3)
          in w4))"

subsection \<open>The animation loop of the two arms\<close>

definition animate2 :: "real \<Rightarrow> world2 \<Rightarrow> world2" where
  "animate2 delta w =
    (if \<not> isPaused2 w then
       (let w1 = w\<lparr>cycleTime2 := cycleTime2 w + delta * speed2 w\<rparr>;
            loopTime = js_rem (cycleTime2 w1) CYCLE_DURATION2;
            newCycleCount = \<lfloor>cycleTime2 w1 / CYCLE_DURATION2\<rfloor>;
            w2 = (if newCycleCount \<noteq> cycleCount2 w1
                  then w1\<lparr>cycleCount2 := newCycleCount\<rparr> else w1)
        in case findPhase loopTime PHASES2 of
             Some currentPhase \<Rightarrow>
               updateMachineAnimation2 (name currentPhase)
                 (phaseProgress loopTime currentPhase) loopTime w2
           | None \<Rightarrow> w2)
     else w)"

fun frames2 :: "real list \<Rightarrow> world2 \<Rightarrow> world2" where
  "frames2 [] w = w"
| "frames2 (delta # deltas) w = frames2 deltas (animate2 delta w)"

section \<open>Observations and scenarios\<close>

text \<open>
  What follows is not code of the scripts: these are the observations and the runs in whose
  terms the properties are stated.
\<close>

subsection \<open>Runs\<close>

text \<open>Frames at a fixed step: a first frame with \<open>delta = 0\<close> (the first value of
  \<open>clock.getDelta()\<close>), then \<open>n\<close> frames of \<open>step\<close> seconds each.\<close>

definition steady :: "nat \<Rightarrow> real \<Rightarrow> real list" where
  "steady n step = 0 # replicate n step"

text \<open>
  A run at eight frames per second with the page as loaded. The step 1/8 and all its
  multiples are doubles, so the program's sums of elapsed time are the exact ones.
\<close>

definition eightFps :: "nat \<Rightarrow> world" where
  "eightFps n = frames (steady n (1/8)) initial"

text \<open>
  Steps of 0.1 s are not doubles, and \<open>cycleTime += delta * speed\<close> rounds at every frame.
  \<open>tenth\<close> is the double nearest to 0.1. \<open>ulp v\<close> is the distance between neighbouring
  doubles at \<open>v\<close> (53 significant bits), for \<open>1/16 \<le> v < 16\<close>, which covers the elapsed
  times below; \<open>roundToDouble\<close> rounds to the nearest double, ties to the even one.
\<close>

definition tenth :: real where
  "tenth = 3602879701896397 / 36028797018963968"

definition ulp :: "real \<Rightarrow> real" where
  "ulp v = (if v < 1/8 then 1 / 2 ^ 56 else if v < 1/4 then 1 / 2 ^ 55
            else if v < 1/2 then 1 / 2 ^ 54 else if v < 1 then 1 / 2 ^ 53
            else if v < 2 then 1 / 2 ^ 52 else if v < 4 then 1 / 2 ^ 51
            else if v < 8 then 1 / 2 ^ 50 else 1 / 2 ^ 49)"

definition roundToDouble :: "real \<Rightarrow> real" where
  "roundToDouble v =
     (let u = ulp v;
          q = v / u;
          n = \<lfloor>q\<rfloor>;
          r = q - of_int n
      in (if r < 1/2 \<or> (r = 1/2 \<and> even n) then of_int n else of_int n + 1) * u)"

text \<open>
  The amounts by which elapsed time really grows in \<open>n\<close> frames of \<open>delta = 0.1\<close> at speed 1,
  starting from elapsed time \<open>e\<close>: each frame takes it to the double nearest to the sum.
\<close>

fun tenthSteps :: "nat \<Rightarrow> real \<Rightarrow> real list" where
  "tenthSteps 0 e = []"
| "tenthSteps (Suc n) e =
     (roundToDouble (e + tenth) - e) # tenthSteps n (roundToDouble (e + tenth))"

text \<open>
  The scenario of the specification: the selector on its alternating entry, a first frame
  with \<open>delta = 0\<close>, then \<open>n\<close> frames with \<open>delta = 0.1\<close>.
\<close>

definition scenario :: "nat \<Rightarrow> world" where
  "scenario n = frames (0 # tenthSteps n 0) (stationSelectChange ''both'' initial)"

text \<open>The two-arm program driven in the same way from the page as loaded.\<close>

definition scenario2 :: "nat \<Rightarrow> world2" where
  "scenario2 n = frames2 (0 # tenthSteps n 0) initial2"

subsection \<open>Observations\<close>

definition armPose :: "world \<Rightarrow> real \<times> real \<times> real" where
  "armPose w = (pivotRotationY w, jaw0X w, jaw1X w)"

definition activePhase :: "world \<Rightarrow> phase_name option" where
  "activePhase w = map_option name (findPhase (js_rem (cycleTime w) CYCLE_DURATION) PHASES)"

text \<open>The observable state: loop time, cycle index, active phase, arm pose, the two disk
  angles, the bundle in flight with its parent, and the contents of the two trays.\<close>

definition snapshot ::
  "world \<Rightarrow> real \<times> int \<times> phase_name option \<times> (real \<times> real \<times> real) \<times> (real \<times> real)
           \<times> item option \<times> bool \<times> item list \<times> item list" where
  "snapshot w =
     (js_rem (cycleTime w) CYCLE_DURATION, cycleCount w, activePhase w, armPose w,
      (leftDiskRotationY w, rightDiskRotationY w),
      currentBundle w, currentBundleIsWrapped w, leftBundles w, rightBundles w)"

text \<open>Who holds what: elapsed time, cycle index, active phase, the bundle in flight, the
  wrapped flag, the two trays and the calls of \<open>attach\<close> so far.\<close>

definition custody ::
  "world \<Rightarrow> real \<times> int \<times> phase_name option \<times> item option \<times> bool \<times> item list \<times> item list
           \<times> (parent \<times> nat) list" where
  "custody w =
     (cycleTime w, cycleCount w, activePhase w, currentBundle w, currentBundleIsWrapped w,
      leftBundles w, rightBundles w, attachCalls w)"

text \<open>The state with the disk of the target station turned by one more step.\<close>

definition turnTargetDisk :: "world \<Rightarrow> world" where
  "turnTargetDisk w =
     (if targetIsLeft w then w\<lparr>leftDiskRotationY := leftDiskRotationY w + 1/10\<rparr>
      else w\<lparr>rightDiskRotationY := rightDiskRotationY w + 1/10\<rparr>)"

text \<open>The tray of the station that the current cycle serves.\<close>

definition targetTray :: "world \<Rightarrow> item list" where
  "targetTray w = (if targetIsLeft w then leftBundles w else rightBundles w)"

definition targetTrayCfg :: "world \<Rightarrow> tray_cfg" where
  "targetTrayCfg w = (if targetIsLeft w then leftTray else rightTray)"

text \<open>The phase and the progress that \<open>animate delta w\<close> hands to
  \<open>updateMachineAnimation\<close>, if any.\<close>

definition sampled :: "real \<Rightarrow> world \<Rightarrow> (phase_name \<times> real) option" where
  "sampled delta w =
     (if isPaused w then None
      else (let loopTime = js_rem (cycleTime w + delta * speed w) CYCLE_DURATION
            in map_option (\<lambda>ph. (name ph, phaseProgress loopTime ph))
                 (findPhase loopTime PHASES)))"

text \<open>The frame samples the first tenth of the spawn phase.\<close>

definition samplesSpawnStart :: "real \<Rightarrow> world \<Rightarrow> bool" where
  "samplesSpawnStart delta w =
     (case sampled delta w of None \<Rightarrow> False | Some (ph, p) \<Rightarrow> ph = Spawn \<and> p < 1/10)"

text \<open>Some frame of the run samples the first tenth of the spawn phase.\<close>

fun spawnStartSampled :: "real list \<Rightarrow> world \<Rightarrow> bool" where
  "spawnStartSampled [] w = False"
| "spawnStartSampled (delta # deltas) w =
     (samplesSpawnStart delta w \<or> spawnStartSampled deltas (animate delta w))"

subsection \<open>What a tray gains and loses\<close>

text \<open>A tray, the left one for \<open>True\<close>.\<close>

definition tray :: "bool \<Rightarrow> world \<Rightarrow> item list" where
  "tray left w = (if left then leftBundles w else rightBundles w)"

text \<open>
  What one frame adds behind the occupants a tray had, and how many occupants the tray
  and these additions have lost in the frame.
\<close>

definition gained :: "bool \<Rightarrow> real \<Rightarrow> world \<Rightarrow> item list" where
  "gained left delta w = drop (length (tray left w)) (tray left (animate delta w))"

definition lost :: "bool \<Rightarrow> real \<Rightarrow> world \<Rightarrow> nat" where
  "lost left delta w =
     length (tray left w) + length (gained left delta w) - length (tray left (animate delta w))"

text \<open>The items placed into a tray over a run, in the order of placement, and the number
  of evictions from it.\<close>

fun placements :: "bool \<Rightarrow> real list \<Rightarrow> world \<Rightarrow> item list" where
  "placements left [] w = []"
| "placements left (delta # deltas) w =
     gained left delta w @ placements left deltas (animate delta w)"

fun evictions :: "bool \<Rightarrow> real list \<Rightarrow> world \<Rightarrow> nat" where
  "evictions left [] w = 0"
| "evictions left (delta # deltas) w =
     lost left delta w + evictions left deltas (animate delta w)"

text \<open>
  No tray holds more than 9 bundles, and a tray that holds 9 got its ninth in the place
  phase that is still the active one.
\<close>

definition trayInv :: "world \<Rightarrow> bool" where
  "trayInv w =
     (\<forall>left. length (tray left w) \<le> 9
        \<and> (length (tray left w) = 9
             \<longrightarrow> activePhase w = Some Place_in_tray \<and> currentBundle w = None))"

text \<open>The phase that \<open>animate2 delta w\<close> hands to \<open>updateMachineAnimation2\<close>, if any.\<close>

definition sampled2 :: "real \<Rightarrow> world2 \<Rightarrow> phase_name2 option" where
  "sampled2 delta w =
     (if isPaused2 w then None
      else map_option name
             (findPhase (js_rem (cycleTime2 w + delta * speed2 w) CYCLE_DURATION2) PHASES2))"

section \<open>Properties\<close>

lemmas frame_eval =
  animate_def updateMachineAnimation_def Let_def PHASES_def CYCLE_DURATION_def js_rem_def
  js_trunc_def phaseProgress_def easeInOutCubic_def initial_def targetIsLeft_def
  getTargetStation_def attach_def setCurrentPosition_def setJaws_def createRawBundle_def
  createWrappedBundle_def topStation_def leftMachine_def rightMachine_def leftTray_def
  rightTray_def slotPosition_def slotRow_def slotCol_def power3_eq_cube steady_def
  scenario_def eightFps_def stationSelectChange_def

lemmas frame_eval2 =
  animate2_def updateMachineAnimation2_def Let_def PHASES2_def CYCLE_DURATION2_def js_rem_def
  js_trunc_def phaseProgress_def easeInOutCubic_def easeInOutQuad_def initial2_def
  attachLeft_def attachRight_def setJaws2_def createRawBundle2_def createWrappedBundle2_def
  topStation2_def leftMachine2_def rightMachine2_def leftTray2_def rightTray2_def
  slotPosition_def slotRow_def slotCol_def power3_eq_cube power2_eq_square steady_def
  scenario2_def

subsection \<open>The timelines tile their cycles\<close>

lemma js_rem_bounds:
  assumes "0 \<le> e" "0 < d"
  shows "0 \<le> js_rem e d \<and> js_rem e d < d"
proof -
  have q: "0 \<le> e / d" using assms by simp
  then have tr: "js_trunc (e / d) = \<lfloor>e / d\<rfloor>" by (simp add: js_trunc_def)
  have lo: "of_int \<lfloor>e / d\<rfloor> \<le> e / d" by (rule of_int_floor_le)
  have hi: "e / d < of_int \<lfloor>e / d\<rfloor> + 1" by linarith
  have "d * of_int \<lfloor>e / d\<rfloor> \<le> d * (e / d)"
    using lo assms(2) by (intro mult_left_mono) auto
  then have A: "d * of_int \<lfloor>e / d\<rfloor> \<le> e"
    using assms(2) by simp
  have "d * (e / d) < d * (of_int \<lfloor>e / d\<rfloor> + 1)"
    using hi assms(2) by (intro mult_strict_left_mono) auto
  then have B: "e < d * (of_int \<lfloor>e / d\<rfloor> + 1)"
    using assms(2) by simp
  from A B
  show ?thesis
    by (simp add: js_rem_def tr algebra_simps)
qed

lemma findPhase_PHASES_cases:
  assumes "0 \<le> t" "t < 8"
  shows "\<exists>p. findPhase t PHASES = Some p \<and> p \<in> set PHASES \<and> start p \<le> t \<and> t < end' p
           \<and> 0 \<le> phaseProgress t p \<and> phaseProgress t p < 1"
  using assms unfolding PHASES_def phaseProgress_def
  by (auto simp: field_simps)

lemma PHASES_unique:
  assumes "p \<in> set PHASES" "q \<in> set PHASES"
    "start p \<le> t" "t < end' p" "start q \<le> t" "t < end' q"
  shows "p = q"
  using assms unfolding PHASES_def by auto

lemma findPhase_PHASES2_cases:
  assumes "0 \<le> t" "t < 12"
  shows "\<exists>p. findPhase t PHASES2 = Some p \<and> p \<in> set PHASES2 \<and> start p \<le> t \<and> t < end' p
           \<and> 0 \<le> phaseProgress t p \<and> phaseProgress t p < 1"
  using assms unfolding PHASES2_def phaseProgress_def
  by (auto simp: field_simps)

lemma PHASES2_unique:
  assumes "p \<in> set PHASES2" "q \<in> set PHASES2"
    "start p \<le> t" "t < end' p" "start q \<le> t" "t < end' q"
  shows "p = q"
  using assms unfolding PHASES2_def by auto

lemma tiling:
  assumes "\<exists>p. findPhase t ps = Some p \<and> p \<in> set ps \<and> start p \<le> t \<and> t < end' p
           \<and> 0 \<le> phaseProgress t p \<and> phaseProgress t p < 1"
    and "\<And>p q. p \<in> set ps \<Longrightarrow> q \<in> set ps \<Longrightarrow> start p \<le> t \<Longrightarrow> t < end' p
           \<Longrightarrow> start q \<le> t \<Longrightarrow> t < end' q \<Longrightarrow> p = q"
  shows "(\<exists>!p. p \<in> set ps \<and> start p \<le> t \<and> t < end' p)
       \<and> (\<exists>p. findPhase t ps = Some p \<and> 0 \<le> phaseProgress t p \<and> phaseProgress t p < 1)"
proof -
  from assms(1) obtain p where
    p: "findPhase t ps = Some p" "p \<in> set ps" "start p \<le> t" "t < end' p"
       "0 \<le> phaseProgress t p" "phaseProgress t p < 1"
    by blast
  have "\<exists>!p. p \<in> set ps \<and> start p \<le> t \<and> t < end' p"
  proof (rule ex1I[of _ p])
    show "p \<in> set ps \<and> start p \<le> t \<and> t < end' p" using p by simp
  next
    fix q assume "q \<in> set ps \<and> start q \<le> t \<and> t < end' q"
    then show "q = p" using assms(2)[of q p] p by blast
  qed
  moreover have "\<exists>p. findPhase t ps = Some p \<and> 0 \<le> phaseProgress t p \<and> phaseProgress t p < 1"
    using p by blast
  ultimately show ?thesis by blast
qed

text \<open>
  Claim C2. For every elapsed time \<open>e \<ge> 0\<close>, with the loop time \<open>e mod CYCLE_DURATION\<close>,
  exactly one phase of \<open>PHASES\<close> has \<open>start \<le> loopTime < end\<close>; it is the phase the
  loop of \<open>animate\<close> finds, and the progress computed for it lies in \<open>[0, 1)\<close>. The same
  holds for the timeline of the two-arm program.
\<close>

theorem one_active_phase:
  assumes "0 \<le> e"
  shows "(\<exists>!p. p \<in> set PHASES \<and> start p \<le> js_rem e CYCLE_DURATION
                 \<and> js_rem e CYCLE_DURATION < end' p)
       \<and> (\<exists>p. findPhase (js_rem e CYCLE_DURATION) PHASES = Some p
                 \<and> 0 \<le> phaseProgress (js_rem e CYCLE_DURATION) p
                 \<and> phaseProgress (js_rem e CYCLE_DURATION) p < 1)
       \<and> (\<exists>!p. p \<in> set PHASES2 \<and> start p \<le> js_rem e CYCLE_DURATION2
                 \<and> js_rem e CYCLE_DURATION2 < end' p)
       \<and> (\<exists>p. findPhase (js_rem e CYCLE_DURATION2) PHASES2 = Some p
                 \<and> 0 \<le> phaseProgress (js_rem e CYCLE_DURATION2) p
                 \<and> phaseProgress (js_rem e CYCLE_DURATION2) p < 1)"
proof -
  have b: "0 \<le> js_rem e CYCLE_DURATION \<and> js_rem e CYCLE_DURATION < 8"
    using js_rem_bounds[OF assms, of 8] by (simp add: CYCLE_DURATION_def)
  have b2: "0 \<le> js_rem e CYCLE_DURATION2 \<and> js_rem e CYCLE_DURATION2 < 12"
    using js_rem_bounds[OF assms, of 12] by (simp add: CYCLE_DURATION2_def)
  have one: "(\<exists>!p. p \<in> set PHASES \<and> start p \<le> js_rem e CYCLE_DURATION
                 \<and> js_rem e CYCLE_DURATION < end' p)
       \<and> (\<exists>p. findPhase (js_rem e CYCLE_DURATION) PHASES = Some p
                 \<and> 0 \<le> phaseProgress (js_rem e CYCLE_DURATION) p
                 \<and> phaseProgress (js_rem e CYCLE_DURATION) p < 1)"
    using b by (intro tiling findPhase_PHASES_cases PHASES_unique) simp_all
  have two: "(\<exists>!p. p \<in> set PHASES2 \<and> start p \<le> js_rem e CYCLE_DURATION2
                 \<and> js_rem e CYCLE_DURATION2 < end' p)
       \<and> (\<exists>p. findPhase (js_rem e CYCLE_DURATION2) PHASES2 = Some p
                 \<and> 0 \<le> phaseProgress (js_rem e CYCLE_DURATION2) p
                 \<and> phaseProgress (js_rem e CYCLE_DURATION2) p < 1)"
    using b2 by (intro tiling findPhase_PHASES2_cases PHASES2_unique) simp_all
  from one two show ?thesis by simp
qed

theorem one_active_phase_witness:
  "(0::real) \<le> 81/10
   \<and> (\<exists>!p. p \<in> set PHASES \<and> start p \<le> js_rem (81/10) CYCLE_DURATION
                 \<and> js_rem (81/10) CYCLE_DURATION < end' p)
   \<and> (\<exists>p. findPhase (js_rem (81/10) CYCLE_DURATION) PHASES = Some p
                 \<and> 0 \<le> phaseProgress (js_rem (81/10) CYCLE_DURATION) p
                 \<and> phaseProgress (js_rem (81/10) CYCLE_DURATION) p < 1)
   \<and> (\<exists>!p. p \<in> set PHASES2 \<and> start p \<le> js_rem (81/10) CYCLE_DURATION2
                 \<and> js_rem (81/10) CYCLE_DURATION2 < end' p)
   \<and> (\<exists>p. findPhase (js_rem (81/10) CYCLE_DURATION2) PHASES2 = Some p
                 \<and> 0 \<le> phaseProgress (js_rem (81/10) CYCLE_DURATION2) p
                 \<and> phaseProgress (js_rem (81/10) CYCLE_DURATION2) p < 1)"
  using one_active_phase[of "81/10"] by simp

subsection \<open>What a frame leaves alone\<close>

lemmas uma_defs = updateMachineAnimation_def Let_def setJaws_def attach_def setCurrentPosition_def

lemma replicate_numeral: "replicate (numeral k) v = v # replicate (pred_numeral k) v"
  by (simp add: numeral_eq_Suc)

lemmas run_eval = frame_eval replicate_numeral

lemmas run_eval2 = frame_eval2 replicate_numeral

lemma tenthSteps_numeral:
  "tenthSteps (numeral k) e =
     (roundToDouble (e + tenth) - e) # tenthSteps (pred_numeral k) (roundToDouble (e + tenth))"
  by (simp add: numeral_eq_Suc)

lemmas round_eval = roundToDouble_def ulp_def tenth_def tenthSteps_numeral

lemma Let_arg_cong: "a = b \<Longrightarrow> Let a t = Let b t"
  by simp

lemmas obs_eval = run_eval snapshot_def armPose_def activePhase_def targetTray_def targetTrayCfg_def
  sampled_def samplesSpawnStart_def

lemma uma_globals [simp]:
  "speed (updateMachineAnimation ph p lt w) = speed w"
  "isPaused (updateMachineAnimation ph p lt w) = isPaused w"
  "cycleTime (updateMachineAnimation ph p lt w) = cycleTime w"
  "cycleCount (updateMachineAnimation ph p lt w) = cycleCount w"
  "selectedStation (updateMachineAnimation ph p lt w) = selectedStation w"
  by (cases ph; simp add: uma_defs split: option.splits)+

lemma uma_targetIsLeft [simp]:
  "targetIsLeft (updateMachineAnimation ph p lt w) = targetIsLeft w"
  by (simp add: targetIsLeft_def getTargetStation_def)

lemma animate_globals [simp]:
  "speed (animate d w) = speed w"
  "isPaused (animate d w) = isPaused w"
  "selectedStation (animate d w) = selectedStation w"
  by (simp_all add: animate_def Let_def split: option.splits)

lemma animate_cycleTime:
  "cycleTime (animate d w) = (if isPaused w then cycleTime w else cycleTime w + d * speed w)"
  by (simp add: animate_def Let_def split: option.splits)

lemma frames_globals [simp]:
  "speed (frames ds w) = speed w"
  "isPaused (frames ds w) = isPaused w"
  "selectedStation (frames ds w) = selectedStation w"
  by (induction ds arbitrary: w; simp)+

lemma frames_snoc: "frames (ds @ [d]) w = animate d (frames ds w)"
  by (induction ds arbitrary: w) simp_all

lemma frames_cycleTime:
  "\<not> isPaused w \<Longrightarrow> cycleTime (frames ds w) = cycleTime w + sum_list ds * speed w"
  by (induction ds arbitrary: w) (simp_all add: animate_cycleTime algebra_simps)

lemma animate_unfold:
  assumes "\<not> isPaused w"
  shows "animate d w =
    (case sampled d w of
       None \<Rightarrow> w\<lparr>cycleTime := cycleTime w + d * speed w,
                   cycleCount := \<lfloor>(cycleTime w + d * speed w) / CYCLE_DURATION\<rfloor>\<rparr>
     | Some (ph, p) \<Rightarrow>
         updateMachineAnimation ph p (js_rem (cycleTime w + d * speed w) CYCLE_DURATION)
           (w\<lparr>cycleTime := cycleTime w + d * speed w,
              cycleCount := \<lfloor>(cycleTime w + d * speed w) / CYCLE_DURATION\<rfloor>\<rparr>))"
proof -
  have eq: "(if c \<noteq> cycleCount w then w\<lparr>cycleTime := t, cycleCount := c\<rparr> else w\<lparr>cycleTime := t\<rparr>)
            = w\<lparr>cycleTime := t, cycleCount := c\<rparr>" for c t
    by simp
  show ?thesis
    using assms by (simp add: animate_def sampled_def Let_def eq split: option.splits)
qed

lemma targetIsLeft_update [simp]:
  "targetIsLeft (w\<lparr>pivotRotationY := a1\<rparr>) = targetIsLeft w"
  "targetIsLeft (w\<lparr>jaw0X := a2\<rparr>) = targetIsLeft w"
  "targetIsLeft (w\<lparr>jaw1X := a3\<rparr>) = targetIsLeft w"
  "targetIsLeft (w\<lparr>leftDiskRotationY := a4\<rparr>) = targetIsLeft w"
  "targetIsLeft (w\<lparr>rightDiskRotationY := a5\<rparr>) = targetIsLeft w"
  "targetIsLeft (w\<lparr>leftBundles := a6\<rparr>) = targetIsLeft w"
  "targetIsLeft (w\<lparr>rightBundles := a7\<rparr>) = targetIsLeft w"
  "targetIsLeft (w\<lparr>currentBundle := a8\<rparr>) = targetIsLeft w"
  "targetIsLeft (w\<lparr>currentBundleIsWrapped := a9\<rparr>) = targetIsLeft w"
  "targetIsLeft (w\<lparr>nextId := a10\<rparr>) = targetIsLeft w"
  "targetIsLeft (w\<lparr>attachCalls := a11\<rparr>) = targetIsLeft w"
  "targetIsLeft (w\<lparr>cycleCount := a12\<rparr>) = targetIsLeft w"
  by (simp_all add: targetIsLeft_def getTargetStation_def)

subsection \<open>Items come from the start of the spawn phase only\<close>

lemma uma_no_item:
  assumes "currentBundle w = None" "\<not> (ph = Spawn \<and> p < 1/10)"
  shows "currentBundle (updateMachineAnimation ph p lt w) = None"
    "attachCalls (updateMachineAnimation ph p lt w) = attachCalls w"
    "nextId (updateMachineAnimation ph p lt w) = nextId w"
    "currentBundleIsWrapped (updateMachineAnimation ph p lt w) = currentBundleIsWrapped w"
    "suffix (leftBundles (updateMachineAnimation ph p lt w)) (leftBundles w)"
    "suffix (rightBundles (updateMachineAnimation ph p lt w)) (rightBundles w)"
  using assms by (cases ph; simp add: uma_defs suffix_tl)+

lemma uma_spawn_item:
  assumes "currentBundle w = None" "p < 1/10"
  shows "currentBundle (updateMachineAnimation Spawn p lt w)
         = Some \<lparr>ident = nextId w, kind = Raw, parent = Scene, position = (0, 7/10, -7)\<rparr>"
  using assms by (simp add: uma_defs createRawBundle_def topStation_def)

lemma animate_no_item:
  assumes "currentBundle w = None" "\<not> samplesSpawnStart d w"
  shows "currentBundle (animate d w) = None"
    "attachCalls (animate d w) = attachCalls w"
    "nextId (animate d w) = nextId w"
    "currentBundleIsWrapped (animate d w) = currentBundleIsWrapped w"
    "suffix (leftBundles (animate d w)) (leftBundles w)"
    "suffix (rightBundles (animate d w)) (rightBundles w)"
proof -
  define w2 where "w2 = w\<lparr>cycleTime := cycleTime w + d * speed w,
                  cycleCount := \<lfloor>(cycleTime w + d * speed w) / CYCLE_DURATION\<rfloor>\<rparr>"
  have w2: "currentBundle w2 = None" "attachCalls w2 = attachCalls w" "nextId w2 = nextId w"
    "currentBundleIsWrapped w2 = currentBundleIsWrapped w" "leftBundles w2 = leftBundles w"
    "rightBundles w2 = rightBundles w"
    using assms(1) by (simp_all add: w2_def)
  have goal: "currentBundle (animate d w) = None
    \<and> attachCalls (animate d w) = attachCalls w
    \<and> nextId (animate d w) = nextId w
    \<and> currentBundleIsWrapped (animate d w) = currentBundleIsWrapped w
    \<and> suffix (leftBundles (animate d w)) (leftBundles w)
    \<and> suffix (rightBundles (animate d w)) (rightBundles w)"
  proof (cases "isPaused w")
    case True
    then show ?thesis using assms(1) by (simp add: animate_def)
  next
    case False
    show ?thesis
    proof (cases "sampled d w")
      case None
      then show ?thesis
        using False w2 by (simp add: animate_unfold w2_def[symmetric])
    next
      case (Some s)
      obtain ph p where s: "s = (ph, p)" by (cases s)
      from assms(2) Some s have ns: "\<not> (ph = Spawn \<and> p < 1/10)"
        by (simp add: samplesSpawnStart_def)
      have an: "animate d w
          = updateMachineAnimation ph p (js_rem (cycleTime w + d * speed w) CYCLE_DURATION) w2"
        using False Some s by (simp add: animate_unfold w2_def)
      show ?thesis
        unfolding an using uma_no_item[OF w2(1) ns] w2 by simp
    qed
  qed
  from goal show "currentBundle (animate d w) = None"
    "attachCalls (animate d w) = attachCalls w"
    "nextId (animate d w) = nextId w"
    "currentBundleIsWrapped (animate d w) = currentBundleIsWrapped w"
    "suffix (leftBundles (animate d w)) (leftBundles w)"
    "suffix (rightBundles (animate d w)) (rightBundles w)"
    by simp_all
qed

lemma animate_spawn_item:
  assumes "currentBundle w = None" "samplesSpawnStart d w"
  shows "currentBundle (animate d w)
         = Some \<lparr>ident = nextId w, kind = Raw, parent = Scene, position = (0, 7/10, -7)\<rparr>"
proof -
  from assms(2) obtain p where s: "sampled d w = Some (Spawn, p)" and p: "p < 1/10"
    by (auto simp: samplesSpawnStart_def split: option.splits)
  from s have np: "\<not> isPaused w"
    by (auto simp: sampled_def split: if_splits)
  show ?thesis
    using assms(1) p by (simp add: animate_unfold[OF np] s uma_spawn_item)
qed

lemma frames_no_item:
  assumes "currentBundle w = None" "\<not> spawnStartSampled ds w"
  shows "currentBundle (frames ds w) = None
    \<and> attachCalls (frames ds w) = attachCalls w
    \<and> nextId (frames ds w) = nextId w
    \<and> currentBundleIsWrapped (frames ds w) = currentBundleIsWrapped w
    \<and> suffix (leftBundles (frames ds w)) (leftBundles w)
    \<and> suffix (rightBundles (frames ds w)) (rightBundles w)"
  using assms
proof (induction ds arbitrary: w)
  case Nil
  then show ?case by simp
next
  case (Cons d ds)
  from Cons.prems have n: "\<not> samplesSpawnStart d w" and r: "\<not> spawnStartSampled ds (animate d w)"
    by simp_all
  note step = animate_no_item[OF Cons.prems(1) n]
  from Cons.IH[OF step(1) r] step show ?case
    by (auto intro: suffix_order.trans)
qed

lemma uma_creates_raw:
  assumes "nextId (updateMachineAnimation ph p lt w) \<noteq> nextId w"
    and "map_option kind (currentBundle (updateMachineAnimation ph p lt w)) = Some Raw"
  shows "currentBundle w = None \<and> ph = Spawn \<and> p < 1/10"
proof (cases ph)
  case Spawn
  with assms show ?thesis
    by (simp add: uma_defs split: if_splits)
next
  case Wrapping
  with assms show ?thesis
    by (cases "currentBundle w")
       (auto simp: uma_defs createWrappedBundle_def split: if_splits)
qed (use assms in \<open>simp_all add: uma_defs split: option.splits if_splits\<close>)

lemma animate_creates_raw:
  assumes "nextId (animate d w) \<noteq> nextId w"
    and "map_option kind (currentBundle (animate d w)) = Some Raw"
  shows "currentBundle w = None \<and> samplesSpawnStart d w"
proof (cases "isPaused w")
  case True
  with assms(1) show ?thesis by (simp add: animate_def)
next
  case False
  define w2 where "w2 = w\<lparr>cycleTime := cycleTime w + d * speed w,
                  cycleCount := \<lfloor>(cycleTime w + d * speed w) / CYCLE_DURATION\<rfloor>\<rparr>"
  have w2: "currentBundle w2 = currentBundle w" "nextId w2 = nextId w"
    by (simp_all add: w2_def)
  show ?thesis
  proof (cases "sampled d w")
    case None
    with assms(1) False show ?thesis by (simp add: animate_unfold)
  next
    case (Some s)
    obtain ph p where s: "s = (ph, p)" by (cases s)
    have an: "animate d w
        = updateMachineAnimation ph p (js_rem (cycleTime w + d * speed w) CYCLE_DURATION) w2"
      using False Some s by (simp add: animate_unfold w2_def)
    from uma_creates_raw[of ph p _ w2] assms w2
    have "currentBundle w = None \<and> ph = Spawn \<and> p < 1/10"
      unfolding an by simp
    then show ?thesis
      using Some s by (simp add: samplesSpawnStart_def)
  qed
qed

text \<open>
  Claim C10, amended. A frame creates a raw bundle only if no bundle is in flight and it
  samples the spawn phase at a progress below 0.1 (state \<open>v\<close>); with no bundle in flight, a
  frame brings one into being only if it samples that part of the spawn phase, and then it
  is a raw bundle on the top station. Over any run of frames that starts with no bundle in
  flight and never samples the first tenth of the spawn phase, no bundle exists at the end,
  no \<open>attach\<close> was called, no object was created, the wrapped flag is as before and the trays
  gained nothing (they can only have lost items at their front): pick, wrapping and place
  did nothing to items.
\<close>

theorem item_only_from_spawn_start:
  assumes "currentBundle w = None"
  shows "(nextId (animate delta v) \<noteq> nextId v
          \<and> map_option kind (currentBundle (animate delta v)) = Some Raw
          \<longrightarrow> currentBundle v = None \<and> samplesSpawnStart delta v)
    \<and> (currentBundle (animate delta w) \<noteq> None \<longrightarrow> samplesSpawnStart delta w)
    \<and> (samplesSpawnStart delta w \<longrightarrow>
         currentBundle (animate delta w)
         = Some \<lparr>ident = nextId w, kind = Raw, parent = Scene, position = (0, 7/10, -7)\<rparr>)
    \<and> (\<not> spawnStartSampled deltas w \<longrightarrow>
         currentBundle (frames deltas w) = None
         \<and> attachCalls (frames deltas w) = attachCalls w
         \<and> nextId (frames deltas w) = nextId w
         \<and> currentBundleIsWrapped (frames deltas w) = currentBundleIsWrapped w
         \<and> suffix (leftBundles (frames deltas w)) (leftBundles w)
         \<and> suffix (rightBundles (frames deltas w)) (rightBundles w))"
proof (intro conjI impI)
  assume "nextId (animate delta v) \<noteq> nextId v
          \<and> map_option kind (currentBundle (animate delta v)) = Some Raw"
  then show "currentBundle v = None" "samplesSpawnStart delta v"
    using animate_creates_raw[of delta v] by simp_all
next
  assume some: "currentBundle (animate delta w) \<noteq> None"
  show "samplesSpawnStart delta w"
  proof (rule ccontr)
    assume "\<not> samplesSpawnStart delta w"
    from animate_no_item(1)[OF assms this] some show False by simp
  qed
next
  assume "samplesSpawnStart delta w"
  then show "currentBundle (animate delta w)
         = Some \<lparr>ident = nextId w, kind = Raw, parent = Scene, position = (0, 7/10, -7)\<rparr>"
    by (rule animate_spawn_item[OF assms])
qed (use frames_no_item[OF assms, of deltas] in simp_all)

theorem item_only_from_spawn_start_witness:
  "currentBundle initial = None
   \<and> samplesSpawnStart 0 initial
   \<and> currentBundle (animate 0 initial)
       = Some \<lparr>ident = 0, kind = Raw, parent = Scene, position = (0, 7/10, -7)\<rparr>
   \<and> \<not> spawnStartSampled [1/8, 9/8, 17/8, 15/8, 5/8, 3/2, 1/4] initial
   \<and> currentBundle (frames [1/8, 9/8, 17/8, 15/8, 5/8, 3/2, 1/4] initial) = None
   \<and> attachCalls (frames [1/8, 9/8, 17/8, 15/8, 5/8, 3/2, 1/4] initial) = []
   \<and> nextId (frames [1/8, 9/8, 17/8, 15/8, 5/8, 3/2, 1/4] initial) = 0"
proof -
  have h: "currentBundle initial = None" by (simp add: initial_def)
  have s: "samplesSpawnStart 0 initial" by (simp add: obs_eval)
  have n: "\<not> spawnStartSampled [1/8, 9/8, 17/8, 15/8, 5/8, 3/2, 1/4] initial"
    by (simp add: obs_eval)
  note th = item_only_from_spawn_start[OF h, where delta = 0 and v = initial
      and deltas = "[1/8, 9/8, 17/8, 15/8, 5/8, 3/2, 1/4]"]
  have a: "currentBundle (animate 0 initial)
       = Some \<lparr>ident = 0, kind = Raw, parent = Scene, position = (0, 7/10, -7)\<rparr>"
    using th[THEN conjunct2, THEN conjunct2, THEN conjunct1, THEN mp, OF s]
    by (simp add: initial_def)
  have r: "currentBundle (frames [1/8, 9/8, 17/8, 15/8, 5/8, 3/2, 1/4] initial) = None
   \<and> attachCalls (frames [1/8, 9/8, 17/8, 15/8, 5/8, 3/2, 1/4] initial) = []
   \<and> nextId (frames [1/8, 9/8, 17/8, 15/8, 5/8, 3/2, 1/4] initial) = 0"
    using th[THEN conjunct2, THEN conjunct2, THEN conjunct2, THEN mp, OF n]
    by (simp add: initial_def)
  from h s n a r show ?thesis by simp
qed

text \<open>
  Claim C10 as stated fails for a run that starts with a bundle in flight. After the frames
  at elapsed 0, 1.25, 3.375, 5.25 and 5.875 s the arm holds the wrapped bundle of cycle 0.
  The frames that follow, at 8.125, 9.25, 11.375, 13.25, 13.875 and 15.375 s, step over the
  place and reset phases of cycle 0 and never sample the first tenth of a spawn phase: cycle
  1 creates no bundle. Yet its pick, insert and exit phases call \<open>attach\<close> on the bundle left
  over, and its place phase puts that bundle into the left tray.
\<close>

theorem leftover_item_counterexample:
  "currentBundle (frames [0, 5/4, 17/8, 15/8, 5/8] initial)
     = Some \<lparr>ident = 1, kind = Wrapped, parent = CenterPivot, position = (0, 1/5, -(19/4))\<rparr>
   \<and> cycleTime (frames [0, 5/4, 17/8, 15/8, 5/8] initial) = 47/8
   \<and> leftBundles (frames [0, 5/4, 17/8, 15/8, 5/8] initial) = []
   \<and> \<not> spawnStartSampled [9/4, 9/8, 17/8, 15/8, 5/8, 3/2]
         (frames [0, 5/4, 17/8, 15/8, 5/8] initial)
   \<and> nextId (frames [9/4, 9/8, 17/8, 15/8, 5/8, 3/2] (frames [0, 5/4, 17/8, 15/8, 5/8] initial))
       = nextId (frames [0, 5/4, 17/8, 15/8, 5/8] initial)
   \<and> leftBundles (frames [9/4, 9/8, 17/8, 15/8, 5/8, 3/2]
         (frames [0, 5/4, 17/8, 15/8, 5/8] initial))
       = [\<lparr>ident = 1, kind = Wrapped, parent = Scene, position = slotPosition leftTray 0\<rparr>]
   \<and> attachCalls (frames [0, 5/4, 17/8, 15/8, 5/8] initial)
       = [(CenterPivot, 0), (Scene, 0), (CenterPivot, 1)]
   \<and> attachCalls (frames [9/4, 9/8, 17/8, 15/8, 5/8, 3/2]
         (frames [0, 5/4, 17/8, 15/8, 5/8] initial))
       = [(CenterPivot, 0), (Scene, 0), (CenterPivot, 1),
          (CenterPivot, 1), (Scene, 1), (CenterPivot, 1), (Scene, 1)]"
  by (simp add: obs_eval)

subsection \<open>The trays are first in, first out\<close>

lemma place_appends:
  assumes "currentBundle w = Some b" "1/2 < easeInOutCubic p"
  shows "targetTray (updateMachineAnimation Place_in_tray p lt w)
         = targetTray w @ [b\<lparr>parent := Scene,
                              position := slotPosition (targetTrayCfg w) (length (targetTray w))\<rparr>]"
proof -
  have t: "targetIsLeft (updateMachineAnimation Place_in_tray p lt w) = targetIsLeft w"
    by simp
  show ?thesis
    unfolding targetTray_def targetTrayCfg_def t
    using assms by (simp add: uma_defs)
qed

lemma uma_tray:
  "tray s (updateMachineAnimation ph p lt w) =
     (if ph = Place_in_tray \<and> currentBundle w \<noteq> None \<and> 1/2 < easeInOutCubic p
         \<and> s = targetIsLeft w
      then tray s w @ [(the (currentBundle w))\<lparr>parent := Scene,
              position := slotPosition (if s then leftTray else rightTray) (length (tray s w))\<rparr>]
      else if ph = Reset \<and> 8 < length (tray s w) then tl (tray s w) else tray s w)"
  by (cases ph; cases s; cases "currentBundle w"; simp add: uma_defs tray_def)

lemma uma_place_clears:
  "currentBundle (updateMachineAnimation Place_in_tray p lt w)
   = (if 1/2 < easeInOutCubic p then None else currentBundle w)"
  by (cases "currentBundle w"; simp add: uma_defs)

lemma sampled_paused: "isPaused w \<Longrightarrow> sampled d w = None"
  by (simp add: sampled_def)

lemma animate_tray:
  "tray s (animate d w) =
     (case sampled d w of
        None \<Rightarrow> tray s w
      | Some (ph, p) \<Rightarrow>
          (if ph = Place_in_tray \<and> currentBundle w \<noteq> None \<and> 1/2 < easeInOutCubic p
              \<and> s = targetIsLeft (animate d w)
           then tray s w @ [(the (currentBundle w))\<lparr>parent := Scene,
                   position := slotPosition (if s then leftTray else rightTray)
                                 (length (tray s w))\<rparr>]
           else if ph = Reset \<and> 8 < length (tray s w) then tl (tray s w) else tray s w))"
proof (cases "isPaused w")
  case True
  then show ?thesis by (simp add: sampled_paused animate_def)
next
  case False
  define w2 where "w2 = w\<lparr>cycleTime := cycleTime w + d * speed w,
                  cycleCount := \<lfloor>(cycleTime w + d * speed w) / CYCLE_DURATION\<rfloor>\<rparr>"
  have w2: "\<And>l. tray l w2 = tray l w" "currentBundle w2 = currentBundle w"
    by (simp_all add: w2_def tray_def)
  show ?thesis
  proof (cases "sampled d w")
    case None
    then show ?thesis
      using False w2 by (simp add: animate_unfold w2_def[symmetric])
  next
    case (Some a)
    obtain ph p where a: "a = (ph, p)" by (cases a)
    have an: "animate d w
        = updateMachineAnimation ph p (js_rem (cycleTime w + d * speed w) CYCLE_DURATION) w2"
      using False Some a by (simp add: animate_unfold w2_def)
    have t: "targetIsLeft (animate d w) = targetIsLeft w2"
      unfolding an by simp
    show ?thesis
      unfolding t unfolding an by (simp add: Some a uma_tray w2)
  qed
qed

lemma animate_place_clears:
  assumes "sampled d w = Some (Place_in_tray, p)"
  shows "currentBundle (animate d w) = (if 1/2 < easeInOutCubic p then None else currentBundle w)"
proof -
  from assms have np: "\<not> isPaused w"
    by (auto simp: sampled_def split: if_splits)
  show ?thesis
    by (simp add: animate_unfold[OF np] assms uma_place_clears)
qed

lemma frame_gained:
  "gained s d w =
     (case sampled d w of
        None \<Rightarrow> []
      | Some (ph, p) \<Rightarrow>
          (if ph = Place_in_tray \<and> currentBundle w \<noteq> None \<and> 1/2 < easeInOutCubic p
              \<and> s = targetIsLeft (animate d w)
           then [(the (currentBundle w))\<lparr>parent := Scene,
                   position := slotPosition (if s then leftTray else rightTray)
                                 (length (tray s w))\<rparr>]
           else []))"
  unfolding gained_def animate_tray
  by (auto split: option.splits simp: drop_Cons' tl_def split: list.splits)

lemma frame_lost:
  "lost s d w = (if map_option fst (sampled d w) = Some Reset \<and> 8 < length (tray s w) then 1 else 0)"
  unfolding lost_def frame_gained unfolding animate_tray
  by (auto split: option.splits)

lemma frame_tray:
  "tray s (animate d w) = drop (lost s d w) (tray s w @ gained s d w)"
  unfolding frame_lost frame_gained unfolding animate_tray
  by (auto split: option.splits simp: drop_Suc)

lemma gained_place:
  assumes "gained s d w \<noteq> []"
  shows "map_option fst (sampled d w) = Some Place_in_tray
    \<and> s = targetIsLeft (animate d w)
    \<and> currentBundle (animate d w) = None
    \<and> (\<exists>b. currentBundle w = Some b
          \<and> gained s d w = [b\<lparr>parent := Scene,
                   position := slotPosition (if s then leftTray else rightTray)
                                 (length (tray s w))\<rparr>])"
proof -
  from assms obtain p where s: "sampled d w = Some (Place_in_tray, p)"
    and c: "currentBundle w \<noteq> None" "1/2 < easeInOutCubic p" "s = targetIsLeft (animate d w)"
    unfolding frame_gained by (auto split: option.splits if_splits)
  from c(1) obtain b where b: "currentBundle w = Some b" by auto
  show ?thesis
    using animate_place_clears[OF s] c b by (simp add: frame_gained s)
qed

lemma lost_le: "lost s d w \<le> length (tray s w @ gained s d w)"
  by (simp add: lost_def)

lemma frames_fifo:
  "tray s (frames ds w) = drop (evictions s ds w) (tray s w @ placements s ds w)"
proof (induction ds arbitrary: w)
  case Nil
  then show ?case by simp
next
  case (Cons d ds)
  let ?w = "animate d w"
  have app: "drop n xs @ ys = drop n (xs @ ys)" if "n \<le> length xs" for n and xs ys :: "item list"
    using that by simp
  have "tray s (frames (d # ds) w) = drop (evictions s ds ?w) (tray s ?w @ placements s ds ?w)"
    using Cons.IH[of ?w] by simp
  also have "tray s ?w @ placements s ds ?w
             = drop (lost s d w) ((tray s w @ gained s d w) @ placements s ds ?w)"
    unfolding frame_tray[of s d w] by (rule app[OF lost_le])
  also have "drop (evictions s ds ?w) \<dots>
             = drop (lost s d w + evictions s ds ?w)
                 (tray s w @ gained s d w @ placements s ds ?w)"
    by (simp only: drop_drop append_assoc add.commute)
  finally show ?case by (simp only: placements.simps evictions.simps)
qed

lemma frames_at_least:
  "min 8 (length (tray s w) + length (placements s ds w)) \<le> length (tray s (frames ds w))"
proof (induction ds arbitrary: w)
  case Nil
  then show ?case by simp
next
  case (Cons d ds)
  let ?w = "animate d w"
  have len: "length (tray s ?w) = length (tray s w) + length (gained s d w) - lost s d w"
    by (simp add: frame_tray)
  have "min 8 (length (tray s w) + length (gained s d w) + length (placements s ds ?w))
        \<le> min 8 (length (tray s ?w) + length (placements s ds ?w))"
    unfolding len by (auto simp: frame_lost)
  with Cons.IH[of ?w] show ?case by simp
qed

lemma js_rem_step:
  assumes "0 \<le> c" "0 \<le> e" "js_rem c 8 + e < 8"
  shows "js_rem (c + e) 8 = js_rem c 8 + e"
proof -
  define k where "k = \<lfloor>c / 8\<rfloor>"
  have r: "js_rem c 8 = c - 8 * of_int k"
    using assms(1) by (simp add: js_rem_def js_trunc_def k_def)
  have lo: "of_int k \<le> c / 8" unfolding k_def by (rule of_int_floor_le)
  have "\<lfloor>(c + e) / 8\<rfloor> = k"
  proof (rule floor_unique)
    show "of_int k \<le> (c + e) / 8" using lo assms(2) by simp
    show "(c + e) / 8 < of_int k + 1" using assms(3) unfolding r by simp
  qed
  then show ?thesis
    using assms(1,2) by (simp add: js_rem_def js_trunc_def r k_def)
qed

lemma phase_at:
  "map_option name (findPhase lt PHASES) = Some Place_in_tray \<longleftrightarrow> 7 \<le> lt \<and> lt < 15/2"
  "map_option name (findPhase lt PHASES) = Some Reset \<longleftrightarrow> 15/2 \<le> lt \<and> lt < 8"
  by (auto simp: PHASES_def)

lemma sampled_phase:
  "map_option fst (sampled d w)
   = (if isPaused w then None
      else map_option name (findPhase (js_rem (cycleTime w + d * speed w) CYCLE_DURATION) PHASES))"
  by (simp add: sampled_def Let_def option.map_comp comp_def)

lemma activePhase_animate:
  "\<not> isPaused w \<Longrightarrow> activePhase (animate d w) = map_option fst (sampled d w)"
  by (simp add: activePhase_def animate_cycleTime sampled_phase)

lemma after_place:
  assumes "activePhase w = Some Place_in_tray" "0 \<le> cycleTime w" "\<not> isPaused w"
    and "0 \<le> d * speed w" "d * speed w < 1/2"
  shows "map_option fst (sampled d w) = Some Place_in_tray
         \<or> map_option fst (sampled d w) = Some Reset"
proof -
  from assms(1) have b: "7 \<le> js_rem (cycleTime w) 8 \<and> js_rem (cycleTime w) 8 < 15/2"
    unfolding activePhase_def CYCLE_DURATION_def phase_at .
  have "js_rem (cycleTime w + d * speed w) 8 = js_rem (cycleTime w) 8 + d * speed w"
    using b assms by (intro js_rem_step) simp_all
  then have e: "js_rem (cycleTime w + d * speed w) CYCLE_DURATION
                = js_rem (cycleTime w) 8 + d * speed w"
    by (simp add: CYCLE_DURATION_def)
  have ph: "map_option fst (sampled d w)
            = map_option name (findPhase (js_rem (cycleTime w) 8 + d * speed w) PHASES)"
    using assms(3) by (simp add: sampled_phase e)
  have "(7 \<le> js_rem (cycleTime w) 8 + d * speed w \<and> js_rem (cycleTime w) 8 + d * speed w < 15/2)
        \<or> (15/2 \<le> js_rem (cycleTime w) 8 + d * speed w \<and> js_rem (cycleTime w) 8 + d * speed w < 8)"
    using b assms(4,5) by linarith
  then show ?thesis
    unfolding ph phase_at .
qed

lemma animate_trayInv:
  assumes d: "0 \<le> d * speed w" "d * speed w < 1/2" and c: "0 \<le> cycleTime w"
    and inv: "trayInv w"
  shows "trayInv (animate d w)"
proof (cases "isPaused w")
  case True
  then show ?thesis using inv by (simp add: animate_def)
next
  case False
  note ap = activePhase_animate[OF False, of d]
  have nine: "map_option fst (sampled d w) = Some Place_in_tray
         \<or> map_option fst (sampled d w) = Some Reset" if "length (tray s w) = 9" for s
    using that inv after_place[OF _ c False d] by (auto simp: trayInv_def)
  have le: "length (tray s w) \<le> 9" for s
    using inv by (simp add: trayInv_def)
  have none: "currentBundle w = None" if "length (tray s w) = 9" for s
    using that inv by (auto simp: trayInv_def)
  show ?thesis
  proof (cases "sampled d w")
    case None
    then have "length (tray s w) \<noteq> 9" for s using nine[of s] by auto
    then show ?thesis
      by (auto simp: trayInv_def animate_tray None le)
  next
    case (Some a)
    obtain ph p where a: "a = (ph, p)" by (cases a)
    note s = Some[unfolded a]
    consider "ph = Place_in_tray" | "ph = Reset" | "ph \<noteq> Place_in_tray" "ph \<noteq> Reset"
      by blast
    then show ?thesis
    proof cases
      case 1
      have cb: "currentBundle (animate d w)
                = (if 1/2 < easeInOutCubic p then None else currentBundle w)"
        using animate_place_clears[of d w p] s 1 by simp
      have ph: "activePhase (animate d w) = Some Place_in_tray"
        using ap s 1 by simp
      show ?thesis
        unfolding trayInv_def
      proof (intro allI)
        fix l
        show "length (tray l (animate d w)) \<le> 9
          \<and> (length (tray l (animate d w)) = 9
             \<longrightarrow> activePhase (animate d w) = Some Place_in_tray
                 \<and> currentBundle (animate d w) = None)"
        proof (cases "length (tray l w) = 9")
          case True
          from none[OF True] have "tray l (animate d w) = tray l w"
            by (simp add: animate_tray s 1)
          then show ?thesis
            using True none[OF True] cb ph by simp
        next
          case False
          with le[of l] have "length (tray l w) \<le> 8" by simp
          then show ?thesis
            using cb ph by (auto simp: animate_tray s 1)
        qed
      qed
    next
      case 2
      show ?thesis
        unfolding trayInv_def
      proof (intro allI)
        fix l
        show "length (tray l (animate d w)) \<le> 9
          \<and> (length (tray l (animate d w)) = 9
             \<longrightarrow> activePhase (animate d w) = Some Place_in_tray
                 \<and> currentBundle (animate d w) = None)"
          using le[of l] by (auto simp: animate_tray s 2)
      qed
    next
      case 3
      then have "length (tray l w) \<noteq> 9" for l using nine[of l] s by auto
      then show ?thesis
        using 3 by (auto simp: trayInv_def animate_tray s le)
    qed
  qed
qed

lemma frames_trayInv:
  assumes "\<forall>d \<in> set ds. 0 \<le> d * speed w \<and> d * speed w < 1/2" "0 \<le> cycleTime w" "trayInv w"
  shows "trayInv (frames ds w) \<and> 0 \<le> cycleTime (frames ds w)"
  using assms
proof (induction ds arbitrary: w)
  case Nil
  then show ?case by simp
next
  case (Cons d ds)
  from Cons.prems have d: "0 \<le> d * speed w" "d * speed w < 1/2" by simp_all
  have c: "0 \<le> cycleTime (animate d w)"
    using d Cons.prems(2) by (simp add: animate_cycleTime)
  have i: "trayInv (animate d w)"
    by (rule animate_trayInv[OF d Cons.prems(2,3)])
  from Cons.IH[OF _ c i] Cons.prems(1) show ?case by simp
qed

lemma trayInv_start:
  assumes "length (leftBundles w) \<le> 8" "length (rightBundles w) \<le> 8"
  shows "trayInv w"
  using assms by (auto simp: trayInv_def tray_def)

lemma placements_step:
  "placements s (d # ds) w =
     (let v = animate d w in drop (length (tray s w)) (tray s v) @ placements s ds v)"
  by (simp add: gained_def Let_def)

lemma ten_cycles_placed:
  "map ident (placements True (steady 636 (1/8)) initial) = [1, 3, 5, 7, 9, 11, 13, 15, 17, 19]"
  by (simp add: placements_step run_eval tray_def del: placements.simps(2) cong: Let_arg_cong)

text \<open>
  Claim C5, amended. Each tray has \<open>rows * cols = 8\<close> slots. In every frame, a tray is what
  it was, followed by what the frame placed, without the oldest \<open>lost\<close> ones; a frame places
  at most one bundle, only when it samples the place phase, and it is the bundle in flight,
  put at the slot numbered by the occupants of the tray; a frame removes the oldest bundle
  of a tray exactly when it samples the reset phase and the tray holds more than 8, and
  only one. So over any run a tray is its first content followed by the placements in
  order, without the evicted oldest ones. Over a run whose frames each advance elapsed time
  by less than 0.5 s (the length of the reset phase), started with at most 8 bundles in each
  tray, no tray ever holds more than 9; and when such a run has placed at least 8 bundles
  into a tray that was empty and does not end in the place phase, all but the 8 newest have
  been evicted (10 placements: 2 evictions, the 2 oldest gone).
\<close>

theorem tray_fifo:
  assumes "\<forall>d \<in> set ds. 0 \<le> d * speed w \<and> d * speed w < 1/2"
    and "0 \<le> cycleTime w"
    and "length (leftBundles w) \<le> 8" "length (rightBundles w) \<le> 8"
  shows "rows leftTray * cols leftTray = 8 \<and> rows rightTray * cols rightTray = 8
    \<and> (\<forall>left d v.
          tray left (animate d v) = drop (lost left d v) (tray left v @ gained left d v)
          \<and> length (gained left d v) \<le> 1
          \<and> (gained left d v \<noteq> [] \<longrightarrow>
               map_option fst (sampled d v) = Some Place_in_tray
               \<and> left = targetIsLeft (animate d v)
               \<and> currentBundle (animate d v) = None
               \<and> (\<exists>b. currentBundle v = Some b
                     \<and> gained left d v
                         = [b\<lparr>parent := Scene,
                               position := slotPosition (if left then leftTray else rightTray)
                                             (length (tray left v))\<rparr>]))
          \<and> lost left d v
              = (if map_option fst (sampled d v) = Some Reset \<and> 8 < length (tray left v)
                 then 1 else 0))
    \<and> (\<forall>left. tray left (frames ds w)
                = drop (evictions left ds w) (tray left w @ placements left ds w))
    \<and> (\<forall>left n. length (tray left (frames (take n ds) w)) \<le> 9)
    \<and> (\<forall>left. tray left w = [] \<and> 8 \<le> length (placements left ds w)
               \<and> activePhase (frames ds w) \<noteq> Some Place_in_tray
          \<longrightarrow> evictions left ds w = length (placements left ds w) - 8
              \<and> tray left (frames ds w)
                  = drop (length (placements left ds w) - 8) (placements left ds w))"
proof -
  note inv0 = trayInv_start[OF assms(3,4)]
  have cap: "rows leftTray * cols leftTray = 8 \<and> rows rightTray * cols rightTray = 8"
    by (simp add: leftTray_def rightTray_def)
  have frame: "tray left (animate d v) = drop (lost left d v) (tray left v @ gained left d v)
          \<and> length (gained left d v) \<le> 1
          \<and> (gained left d v \<noteq> [] \<longrightarrow>
               map_option fst (sampled d v) = Some Place_in_tray
               \<and> left = targetIsLeft (animate d v)
               \<and> currentBundle (animate d v) = None
               \<and> (\<exists>b. currentBundle v = Some b
                     \<and> gained left d v
                         = [b\<lparr>parent := Scene,
                               position := slotPosition (if left then leftTray else rightTray)
                                             (length (tray left v))\<rparr>]))
          \<and> lost left d v
              = (if map_option fst (sampled d v) = Some Reset \<and> 8 < length (tray left v)
                 then 1 else 0)" for left d v
  proof -
    have a: "tray left (animate d v) = drop (lost left d v) (tray left v @ gained left d v)"
      by (rule frame_tray)
    have b: "length (gained left d v) \<le> 1"
      by (simp add: frame_gained split: option.splits)
    have c: "lost left d v
              = (if map_option fst (sampled d v) = Some Reset \<and> 8 < length (tray left v)
                 then 1 else 0)"
      by (rule frame_lost)
    from a b c gained_place[of left d v] show ?thesis by blast
  qed
  have bound: "length (tray left (frames (take n ds) w)) \<le> 9" for left n
  proof -
    have "\<forall>d \<in> set (take n ds). 0 \<le> d * speed w \<and> d * speed w < 1/2"
      using assms(1) by (auto dest: in_set_takeD)
    from frames_trayInv[OF this assms(2) inv0] show ?thesis
      by (simp add: trayInv_def)
  qed
  have ten: "evictions left ds w = length (placements left ds w) - 8
              \<and> tray left (frames ds w)
                  = drop (length (placements left ds w) - 8) (placements left ds w)"
    if h: "tray left w = [] \<and> 8 \<le> length (placements left ds w)
               \<and> activePhase (frames ds w) \<noteq> Some Place_in_tray" for left
  proof -
    from frames_trayInv[OF assms(1,2) inv0] h
    have up: "length (tray left (frames ds w)) \<le> 8"
      unfolding trayInv_def
      by (cases "length (tray left (frames ds w)) = 9") (auto simp: le_Suc_eq dest: spec[of _ left])
    have lo: "8 \<le> length (tray left (frames ds w))"
      using frames_at_least[of left w ds] h by simp
    have f: "tray left (frames ds w) = drop (evictions left ds w) (placements left ds w)"
      using frames_fifo[of left ds w] h by simp
    from up lo have "length (tray left (frames ds w)) = 8" by simp
    then have "length (placements left ds w) - evictions left ds w = 8"
      unfolding f by simp
    then have e: "evictions left ds w = length (placements left ds w) - 8" by simp
    show ?thesis using e f by simp
  qed
  from cap frame frames_fifo bound ten show ?thesis by blast
qed

theorem tray_fifo_witness:
  "set (steady 636 (1/8)) = {0, 1/8} \<and> speed initial = 1 \<and> cycleTime initial = 0
   \<and> leftBundles initial = [] \<and> rightBundles initial = []
   \<and> map ident (placements True (steady 636 (1/8)) initial)
       = [1, 3, 5, 7, 9, 11, 13, 15, 17, 19]
   \<and> activePhase (frames (steady 636 (1/8)) initial) = Some Reset
   \<and> evictions True (steady 636 (1/8)) initial = 2
   \<and> map ident (tray True (frames (steady 636 (1/8)) initial)) = [5, 7, 9, 11, 13, 15, 17, 19]
   \<and> length (tray True (frames (take 572 (steady 636 (1/8))) initial)) \<le> 9"
proof -
  let ?ds = "steady 636 (1/8)"
  have st: "set ?ds = {0, 1/8}" by (simp add: steady_def)
  have sp: "speed initial = 1" "cycleTime initial = 0" "leftBundles initial = []"
    "rightBundles initial = []" "\<not> isPaused initial"
    by (simp_all add: initial_def)
  have h1: "\<forall>d \<in> set ?ds. 0 \<le> d * speed initial \<and> d * speed initial < 1/2"
    unfolding st sp by simp
  have h2: "0 \<le> cycleTime initial" "length (leftBundles initial) \<le> 8"
    "length (rightBundles initial) \<le> 8"
    by (simp_all add: sp)
  note th = tray_fifo[OF h1 h2]
  note ten = th[THEN conjunct2, THEN conjunct2, THEN conjunct2, THEN conjunct2, THEN conjunct2,
      THEN spec, of True, THEN mp]
  note bound = th[THEN conjunct2, THEN conjunct2, THEN conjunct2, THEN conjunct2, THEN conjunct1,
      THEN spec, THEN spec, of True 572]
  have pl: "map ident (placements True ?ds initial) = [1, 3, 5, 7, 9, 11, 13, 15, 17, 19]"
    by (rule ten_cycles_placed)
  from arg_cong[OF pl, of length] have len: "length (placements True ?ds initial) = 10"
    by simp
  have ct: "cycleTime (frames ?ds initial) = 159/2"
    unfolding frames_cycleTime[OF sp(5)] by (simp add: sp steady_def sum_list_replicate)
  have ph: "activePhase (frames ?ds initial) = Some Reset"
    unfolding activePhase_def ct
    by (simp add: CYCLE_DURATION_def js_rem_def js_trunc_def PHASES_def)
  have r: "evictions True ?ds initial = length (placements True ?ds initial) - 8
     \<and> tray True (frames ?ds initial)
         = drop (length (placements True ?ds initial) - 8) (placements True ?ds initial)"
    using len ph by (intro ten) (simp add: tray_def sp)
  from r len have ev: "evictions True ?ds initial = 2" by simp
  from r len have "map ident (tray True (frames ?ds initial))
      = drop 2 (map ident (placements True ?ds initial))"
    by (simp add: drop_map)
  then have tr: "map ident (tray True (frames ?ds initial)) = [5, 7, 9, 11, 13, 15, 17, 19]"
    unfolding pl by simp
  from st sp pl ph ev tr bound show ?thesis by simp
qed

text \<open>
  Claim C5 as stated fails: frames that step over the reset phase evict nothing. With the
  frames at elapsed 0, 7.375, 8, 15.375, 16, ... (a bundle spawned at the start of each cycle
  and placed at 7.375 s into it) the left tray holds 10 bundles at 80 s, none evicted; and
  a frame in the reset phase then removes one only, leaving 9.
\<close>

theorem tray_overfull_counterexample:
  "map ident (leftBundles (frames (0 # concat (replicate 10 [59/8, 5/8])) initial))
     = [0, 1, 2, 3, 4, 5, 6, 7, 8, 9]
   \<and> cycleTime (frames (0 # concat (replicate 10 [59/8, 5/8])) initial) = 80
   \<and> \<not> length (leftBundles (frames (0 # concat (replicate 10 [59/8, 5/8])) initial)) \<le> 9
   \<and> activePhase (frames (0 # concat (replicate 10 [59/8, 5/8]) @ [61/8]) initial) = Some Reset
   \<and> map ident (leftBundles (frames (0 # concat (replicate 10 [59/8, 5/8]) @ [61/8]) initial))
       = [1, 2, 3, 4, 5, 6, 7, 8, 9]"
  by (simp add: obs_eval)

subsection \<open>What is a function of elapsed time\<close>

lemma uma_pose:
  assumes "ph \<noteq> Wrapping" "targetIsLeft w1 = targetIsLeft w2"
  shows "armPose (updateMachineAnimation ph p lt1 w1) = armPose (updateMachineAnimation ph p lt2 w2)"
  using assms by (cases ph; simp add: uma_defs armPose_def split: option.splits)

lemma animate_pose:
  assumes np: "\<not> isPaused w1" "\<not> isPaused w2"
    and sel: "selectedStation w1 = selectedStation w2"
    and ct: "cycleTime (animate d1 w1) = cycleTime (animate d2 w2)"
    and ph: "activePhase (animate d1 w1) \<notin> {None, Some Wrapping}"
  shows "armPose (animate d1 w1) = armPose (animate d2 w2)"
proof -
  define e where "e = cycleTime w1 + d1 * speed w1"
  have e2: "cycleTime w2 + d2 * speed w2 = e"
    using ct np by (simp add: animate_cycleTime e_def)
  have ce: "cycleTime (animate d1 w1) = e"
    using np by (simp add: animate_cycleTime e_def)
  from ph obtain f where f: "findPhase (js_rem e CYCLE_DURATION) PHASES = Some f"
    and nw: "name f \<noteq> Wrapping"
    by (auto simp: activePhase_def ce)
  define p where "p = phaseProgress (js_rem e CYCLE_DURATION) f"
  have s1: "sampled d1 w1 = Some (name f, p)"
    using np f by (simp add: sampled_def e_def[symmetric] p_def)
  have s2: "sampled d2 w2 = Some (name f, p)"
    using np f by (simp add: sampled_def e2 p_def)
  let ?u1 = "w1\<lparr>cycleTime := e, cycleCount := \<lfloor>e / CYCLE_DURATION\<rfloor>\<rparr>"
  let ?u2 = "w2\<lparr>cycleTime := e, cycleCount := \<lfloor>e / CYCLE_DURATION\<rfloor>\<rparr>"
  have t: "targetIsLeft ?u1 = targetIsLeft ?u2"
    using sel by (simp add: targetIsLeft_def getTargetStation_def)
  have a1: "animate d1 w1 = updateMachineAnimation (name f) p (js_rem e CYCLE_DURATION) ?u1"
    using animate_unfold[OF np(1), of d1] s1 by (simp add: e_def)
  have a2: "animate d2 w2 = updateMachineAnimation (name f) p (js_rem e CYCLE_DURATION) ?u2"
    using animate_unfold[OF np(2), of d2] s2 by (simp add: e2)
  show ?thesis
    unfolding a1 a2 by (rule uma_pose[OF nw t])
qed

text \<open>
  Claim C3, amended. Two runs of frames, from states with the same selected station and not
  paused, that reach the same elapsed time in a phase other than wrapping end with the same
  arm pose (pivot angle and jaw positions), whatever frames they were made of. (The disk
  angles, the bundle in flight and the trays depend on the frames sampled.)
\<close>

theorem pose_function_of_elapsed:
  assumes "\<not> isPaused w1" "\<not> isPaused w2"
    and "selectedStation w1 = selectedStation w2"
    and "ds1 \<noteq> []" "ds2 \<noteq> []"
    and "cycleTime (frames ds1 w1) = cycleTime (frames ds2 w2)"
    and "activePhase (frames ds1 w1) \<notin> {None, Some Wrapping}"
  shows "armPose (frames ds1 w1) = armPose (frames ds2 w2)"
proof -
  from assms(4) obtain es1 d1 where ds1: "ds1 = es1 @ [d1]"
    by (cases ds1 rule: rev_cases) auto
  from assms(5) obtain es2 d2 where ds2: "ds2 = es2 @ [d2]"
    by (cases ds2 rule: rev_cases) auto
  show ?thesis
    using assms(1,2,3,6,7) unfolding ds1 ds2 frames_snoc
    by (intro animate_pose) simp_all
qed

theorem pose_function_of_elapsed_witness:
  "\<not> isPaused initial \<and> cycleTime (frames [0, 2] initial) = cycleTime (frames [0, 1, 1] initial)
   \<and> activePhase (frames [0, 2] initial) = Some Transport_to_wrapper
   \<and> armPose (frames [0, 2] initial) = armPose (frames [0, 1, 1] initial)"
proof -
  have p: "\<not> isPaused initial" by (simp add: initial_def)
  have c: "cycleTime (frames [0, 2] initial) = cycleTime (frames [0, 1, 1] initial)"
    by (simp add: run_eval)
  have a: "activePhase (frames [0, 2] initial) = Some Transport_to_wrapper"
    by (simp add: obs_eval)
  then have a': "activePhase (frames [0, 2] initial) \<notin> {None, Some Wrapping}" by simp
  from pose_function_of_elapsed[OF p p refl _ _ c a'] p c a show ?thesis by simp
qed

text \<open>
  Claim C3 as stated fails: two runs from the page as loaded that reach the same elapsed time
  differ in tray contents and in the bundle in flight (one sampled the place phase, the other
  stepped over it), and two others differ in the disk angle (one more frame in wrapping).
\<close>

theorem same_elapsed_different_world_counterexample:
  "cycleTime (frames [0, 59/8, 1/4] initial) = cycleTime (frames [0, 61/8] initial)
   \<and> leftBundles (frames [0, 59/8, 1/4] initial) \<noteq> leftBundles (frames [0, 61/8] initial)
   \<and> currentBundle (frames [0, 59/8, 1/4] initial) \<noteq> currentBundle (frames [0, 61/8] initial)
   \<and> cycleTime (frames [0, 18/5, 2/5] initial) = cycleTime (frames [0, 4] initial)
   \<and> leftDiskRotationY (frames [0, 18/5, 2/5] initial) \<noteq> leftDiskRotationY (frames [0, 4] initial)"
  by (simp add: run_eval)

subsection \<open>Frames that take no time\<close>

lemmas snap_defs = snapshot_def armPose_def activePhase_def

lemma idem_Spawn:
  "snapshot (updateMachineAnimation Spawn p lt (updateMachineAnimation Spawn p lt w))
   = snapshot (updateMachineAnimation Spawn p lt w)"
  by (cases "currentBundle w"; simp add: snap_defs uma_defs)

lemma idem_Pick:
  "snapshot (updateMachineAnimation Pick p lt (updateMachineAnimation Pick p lt w))
   = snapshot (updateMachineAnimation Pick p lt w)"
  by (cases "currentBundle w"; simp add: snap_defs uma_defs)

lemma idem_Transport_to_wrapper:
  "snapshot (updateMachineAnimation Transport_to_wrapper p lt (updateMachineAnimation Transport_to_wrapper p lt w))
   = snapshot (updateMachineAnimation Transport_to_wrapper p lt w)"
  by (simp add: snap_defs uma_defs)

lemma idem_Insert_wrapper:
  "snapshot (updateMachineAnimation Insert_wrapper p lt (updateMachineAnimation Insert_wrapper p lt w))
   = snapshot (updateMachineAnimation Insert_wrapper p lt w)"
  by (cases "currentBundle w"; simp add: snap_defs uma_defs)

lemma idem_Exit_wrapper:
  "snapshot (updateMachineAnimation Exit_wrapper p lt (updateMachineAnimation Exit_wrapper p lt w))
   = snapshot (updateMachineAnimation Exit_wrapper p lt w)"
  by (cases "currentBundle w"; simp add: snap_defs uma_defs)

lemma idem_Transport_to_tray:
  "snapshot (updateMachineAnimation Transport_to_tray p lt (updateMachineAnimation Transport_to_tray p lt w))
   = snapshot (updateMachineAnimation Transport_to_tray p lt w)"
  by (simp add: snap_defs uma_defs)

lemma idem_Place_in_tray:
  "snapshot (updateMachineAnimation Place_in_tray p lt (updateMachineAnimation Place_in_tray p lt w))
   = snapshot (updateMachineAnimation Place_in_tray p lt w)"
  by (cases "currentBundle w"; simp add: snap_defs uma_defs)

lemma reset_unfold:
  "updateMachineAnimation Reset p lt w =
     w\<lparr>pivotRotationY :=
          (if targetIsLeft w then pi / 2 + pi / 4 else - pi / 2 - pi / 4)
          - easeInOutCubic p * (if targetIsLeft w then pi / 2 + pi / 4 else - pi / 2 - pi / 4),
       jaw0X := - (35/100), jaw1X := 35/100,
       leftBundles := (if 8 < length (leftBundles w) then tl (leftBundles w) else leftBundles w),
       rightBundles := (if 8 < length (rightBundles w) then tl (rightBundles w) else rightBundles w)\<rparr>"
  by (simp add: uma_defs)

lemma idem_Reset:
  assumes "length (leftBundles w) \<le> 9" "length (rightBundles w) \<le> 9"
  shows "snapshot (updateMachineAnimation Reset p lt (updateMachineAnimation Reset p lt w))
   = snapshot (updateMachineAnimation Reset p lt w)"
proof -
  define L where "L = (if 8 < length (leftBundles w) then tl (leftBundles w) else leftBundles w)"
  define R where "R = (if 8 < length (rightBundles w) then tl (rightBundles w) else rightBundles w)"
  have l: "\<not> 8 < length L" using assms(1) by (auto simp: L_def)
  have r: "\<not> 8 < length R" using assms(2) by (auto simp: R_def)
  show ?thesis
    unfolding reset_unfold[of p lt "updateMachineAnimation Reset p lt w"]
    unfolding reset_unfold[of p lt w] L_def[symmetric] R_def[symmetric]
    using l r by (simp add: snap_defs split del: if_split)
qed

lemma idem_Wrapping:
  "snapshot (updateMachineAnimation Wrapping p lt (updateMachineAnimation Wrapping p lt w))
   = snapshot (turnTargetDisk (updateMachineAnimation Wrapping p lt w))"
  by (cases "currentBundle w"; cases "targetIsLeft w";
      simp add: snap_defs uma_defs turnTargetDisk_def)

lemma uma_idem:
  assumes "ph \<noteq> Wrapping"
    and "ph = Reset \<longrightarrow> length (leftBundles w) \<le> 9 \<and> length (rightBundles w) \<le> 9"
  shows "snapshot (updateMachineAnimation ph p lt (updateMachineAnimation ph p lt w))
         = snapshot (updateMachineAnimation ph p lt w)"
  using assms
  by (cases ph)
    (simp_all only: idem_Spawn idem_Pick idem_Transport_to_wrapper idem_Insert_wrapper
      idem_Exit_wrapper idem_Transport_to_tray idem_Place_in_tray idem_Reset, simp_all)

lemma wrapping_disks:
  "(leftDiskRotationY (updateMachineAnimation Wrapping p lt w),
    rightDiskRotationY (updateMachineAnimation Wrapping p lt w))
   = (leftDiskRotationY (turnTargetDisk w), rightDiskRotationY (turnTargetDisk w))"
  by (simp add: uma_defs turnTargetDisk_def)

lemma zero_frame:
  assumes np: "\<not> isPaused w"
  shows "sampled 0 w = None \<longrightarrow> animate 0 (animate 0 w) = animate 0 w"
    and "sampled 0 w = Some (ph, p) \<longrightarrow>
           (\<exists>u lt. animate 0 w = updateMachineAnimation ph p lt u
              \<and> animate 0 (animate 0 w)
                  = updateMachineAnimation ph p lt (updateMachineAnimation ph p lt u)
              \<and> leftBundles u = leftBundles w \<and> rightBundles u = rightBundles w
              \<and> leftDiskRotationY u = leftDiskRotationY w
              \<and> rightDiskRotationY u = rightDiskRotationY w
              \<and> targetIsLeft u = targetIsLeft w)"
proof -
  define u where "u = w\<lparr>cycleTime := cycleTime w + 0 * speed w,
      cycleCount := \<lfloor>(cycleTime w + 0 * speed w) / CYCLE_DURATION\<rfloor>\<rparr>"
  have u: "cycleTime u = cycleTime w" "speed u = speed w" "isPaused u = isPaused w"
    "cycleCount u = \<lfloor>cycleTime w / CYCLE_DURATION\<rfloor>"
    "leftBundles u = leftBundles w" "rightBundles u = rightBundles w"
    "leftDiskRotationY u = leftDiskRotationY w" "rightDiskRotationY u = rightDiskRotationY w"
    by (simp_all add: u_def)
  have tu: "targetIsLeft u = targetIsLeft w"
    by (simp add: u_def targetIsLeft_def getTargetStation_def)
  have samp: "sampled 0 v = sampled 0 w" if "cycleTime v = cycleTime w" "isPaused v = isPaused w" for v
    using that by (simp add: sampled_def)
  have same: "v\<lparr>cycleTime := cycleTime w,
      cycleCount := \<lfloor>cycleTime w / CYCLE_DURATION\<rfloor>\<rparr> = v"
    if "cycleTime v = cycleTime w" "cycleCount v = \<lfloor>cycleTime w / CYCLE_DURATION\<rfloor>" for v :: world
    using that by (cases v) simp
  show "sampled 0 w = None \<longrightarrow> animate 0 (animate 0 w) = animate 0 w"
  proof
    assume None: "sampled 0 w = None"
    then have a: "animate 0 w = u"
      using np by (simp add: animate_unfold u_def)
    have su: "u\<lparr>cycleTime := cycleTime w,
        cycleCount := \<lfloor>cycleTime w / CYCLE_DURATION\<rfloor>\<rparr> = u"
      by (rule same) (simp_all add: u)
    have "sampled 0 u = None"
      using None samp[of u] u by simp
    then have "animate 0 u = u"
      using np by (simp add: animate_unfold u su)
    then show "animate 0 (animate 0 w) = animate 0 w" by (simp add: a)
  qed
  show "sampled 0 w = Some (ph, p) \<longrightarrow>
           (\<exists>u lt. animate 0 w = updateMachineAnimation ph p lt u
              \<and> animate 0 (animate 0 w)
                  = updateMachineAnimation ph p lt (updateMachineAnimation ph p lt u)
              \<and> leftBundles u = leftBundles w \<and> rightBundles u = rightBundles w
              \<and> leftDiskRotationY u = leftDiskRotationY w
              \<and> rightDiskRotationY u = rightDiskRotationY w
              \<and> targetIsLeft u = targetIsLeft w)"
  proof
    assume Some: "sampled 0 w = Some (ph, p)"
    define lt where "lt = js_rem (cycleTime w + 0 * speed w) CYCLE_DURATION"
    define v where "v = updateMachineAnimation ph p lt u"
    have a: "animate 0 w = v"
      using np Some by (simp add: animate_unfold u_def v_def lt_def)
    have v: "cycleTime v = cycleTime w" "isPaused v = isPaused w" "speed v = speed w"
      "cycleCount v = \<lfloor>cycleTime w / CYCLE_DURATION\<rfloor>"
      by (simp_all add: v_def u)
    have sv: "v\<lparr>cycleTime := cycleTime w,
        cycleCount := \<lfloor>cycleTime w / CYCLE_DURATION\<rfloor>\<rparr> = v"
      by (rule same) (simp_all add: v)
    have "sampled 0 v = Some (ph, p)"
      using Some samp[of v] v by simp
    then have b: "animate 0 v = updateMachineAnimation ph p lt v"
      using np by (simp add: animate_unfold lt_def v sv)
    show "\<exists>u lt. animate 0 w = updateMachineAnimation ph p lt u
              \<and> animate 0 (animate 0 w)
                  = updateMachineAnimation ph p lt (updateMachineAnimation ph p lt u)
              \<and> leftBundles u = leftBundles w \<and> rightBundles u = rightBundles w
              \<and> leftDiskRotationY u = leftDiskRotationY w
              \<and> rightDiskRotationY u = rightDiskRotationY w
              \<and> targetIsLeft u = targetIsLeft w"
      using a b u tu unfolding v_def by (intro exI[of _ u] exI[of _ lt]) simp
  qed
qed

lemma sampled_zero:
  "\<not> isPaused w \<Longrightarrow> map_option fst (sampled 0 w) = activePhase w"
  by (simp add: sampled_phase activePhase_def)

text \<open>
  Claim C4, amended. When the active phase is not wrapping, a second frame with
  \<open>delta = 0\<close> leaves the snapshot of the first unchanged; in the reset phase this needs
  that no tray holds more than 9 bundles, since each frame of that phase removes one bundle
  from a tray above 8. In the wrapping phase the second frame changes the snapshot of the
  first only by turning the disk of the target station by a further 0.1, as the first frame
  did to the state it started from. While the animation is paused a frame changes nothing.
\<close>

theorem zero_delta_idempotent:
  "(activePhase w \<noteq> Some Wrapping
      \<and> (activePhase w = Some Reset
           \<longrightarrow> length (leftBundles w) \<le> 9 \<and> length (rightBundles w) \<le> 9)
     \<longrightarrow> snapshot (animate 0 (animate 0 w)) = snapshot (animate 0 w))
   \<and> (activePhase w = Some Wrapping \<and> \<not> isPaused w
     \<longrightarrow> snapshot (animate 0 (animate 0 w)) = snapshot (turnTargetDisk (animate 0 w))
        \<and> (leftDiskRotationY (animate 0 w), rightDiskRotationY (animate 0 w))
            = (leftDiskRotationY (turnTargetDisk w), rightDiskRotationY (turnTargetDisk w)))
   \<and> (isPaused w \<longrightarrow> animate 0 (animate 0 w) = animate 0 w)"
proof (intro conjI impI)
  assume "isPaused w"
  then show "animate 0 (animate 0 w) = animate 0 w" by (simp add: animate_def)
next
  assume h: "activePhase w \<noteq> Some Wrapping
      \<and> (activePhase w = Some Reset
           \<longrightarrow> length (leftBundles w) \<le> 9 \<and> length (rightBundles w) \<le> 9)"
  show "snapshot (animate 0 (animate 0 w)) = snapshot (animate 0 w)"
  proof (cases "isPaused w")
    case True
    then show ?thesis by (simp add: animate_def)
  next
    case False
    show ?thesis
    proof (cases "sampled 0 w")
      case None
      with zero_frame(1)[OF False] show ?thesis by simp
    next
      case (Some a)
      obtain ph p where a: "a = (ph, p)" by (cases a)
      from sampled_zero[OF False] Some a have ph: "activePhase w = Some ph" by simp
      from zero_frame(2)[OF False, of ph p] Some a obtain u lt where
        u: "animate 0 w = updateMachineAnimation ph p lt u"
        "animate 0 (animate 0 w)
           = updateMachineAnimation ph p lt (updateMachineAnimation ph p lt u)"
        "leftBundles u = leftBundles w" "rightBundles u = rightBundles w"
        by auto
      have nw: "ph \<noteq> Wrapping" using h ph by simp
      have bd: "ph = Reset \<longrightarrow> length (leftBundles u) \<le> 9 \<and> length (rightBundles u) \<le> 9"
        using h ph u(3,4) by simp
      have "snapshot (animate 0 (animate 0 w))
            = snapshot (updateMachineAnimation ph p lt (updateMachineAnimation ph p lt u))"
        by (simp only: u(2))
      also have "\<dots> = snapshot (updateMachineAnimation ph p lt u)"
        by (rule uma_idem[OF nw bd])
      finally show ?thesis by (simp only: u(1))
    qed
  qed
next
  assume h: "activePhase w = Some Wrapping \<and> \<not> isPaused w"
  then have np: "\<not> isPaused w" by simp
  from sampled_zero[OF np] h obtain p where s: "sampled 0 w = Some (Wrapping, p)"
    by (cases "sampled 0 w") auto
  from zero_frame(2)[OF np, of Wrapping p] s obtain u lt where
    u: "animate 0 w = updateMachineAnimation Wrapping p lt u"
    "animate 0 (animate 0 w)
       = updateMachineAnimation Wrapping p lt (updateMachineAnimation Wrapping p lt u)"
    "leftDiskRotationY u = leftDiskRotationY w" "rightDiskRotationY u = rightDiskRotationY w"
    "targetIsLeft u = targetIsLeft w"
    by auto
  have "snapshot (animate 0 (animate 0 w))
        = snapshot (updateMachineAnimation Wrapping p lt (updateMachineAnimation Wrapping p lt u))"
    by (simp only: u(2))
  also have "\<dots> = snapshot (turnTargetDisk (updateMachineAnimation Wrapping p lt u))"
    by (rule idem_Wrapping)
  finally show "snapshot (animate 0 (animate 0 w)) = snapshot (turnTargetDisk (animate 0 w))"
    by (simp only: u(1))
  show "(leftDiskRotationY (animate 0 w), rightDiskRotationY (animate 0 w))
            = (leftDiskRotationY (turnTargetDisk w), rightDiskRotationY (turnTargetDisk w))"
    unfolding u(1) wrapping_disks using u(3,4,5) by (simp add: turnTargetDisk_def)
qed

theorem zero_delta_idempotent_witness:
  "activePhase (frames [0, 2] initial) = Some Transport_to_wrapper
   \<and> snapshot (animate 0 (animate 0 (frames [0, 2] initial)))
       = snapshot (animate 0 (frames [0, 2] initial))
   \<and> activePhase (frames [0, 61/8] initial) = Some Reset
   \<and> leftBundles (frames [0, 61/8] initial) = [] \<and> rightBundles (frames [0, 61/8] initial) = []
   \<and> snapshot (animate 0 (animate 0 (frames [0, 61/8] initial)))
       = snapshot (animate 0 (frames [0, 61/8] initial))
   \<and> activePhase (frames [0, 4] initial) = Some Wrapping
   \<and> \<not> isPaused (frames [0, 4] initial)
   \<and> snapshot (animate 0 (animate 0 (frames [0, 4] initial)))
       = snapshot (turnTargetDisk (animate 0 (frames [0, 4] initial)))
   \<and> leftDiskRotationY (frames [0, 4] initial) = 1/10
   \<and> leftDiskRotationY (animate 0 (frames [0, 4] initial)) = 2/10
   \<and> leftDiskRotationY (animate 0 (animate 0 (frames [0, 4] initial))) = 3/10"
proof -
  have a: "activePhase (frames [0, 2] initial) = Some Transport_to_wrapper"
    by (simp add: obs_eval)
  have b: "activePhase (frames [0, 61/8] initial) = Some Reset"
    by (simp add: obs_eval)
  have bl: "leftBundles (frames [0, 61/8] initial) = [] \<and> rightBundles (frames [0, 61/8] initial) = []"
    by (simp add: run_eval)
  have c: "activePhase (frames [0, 4] initial) = Some Wrapping"
    by (simp add: obs_eval)
  have p: "\<not> isPaused (frames [0, 4] initial)" by (simp add: initial_def)
  have d: "leftDiskRotationY (frames [0, 4] initial) = 1/10" by (simp add: run_eval)
  have t: "targetIsLeft (frames [0, 4] initial)" by (simp add: run_eval)
  have t1: "targetIsLeft (animate 0 (frames [0, 4] initial))" by (simp add: run_eval)
  note A = zero_delta_idempotent[of "frames [0, 2] initial", THEN conjunct1, THEN mp]
  note B = zero_delta_idempotent[of "frames [0, 61/8] initial", THEN conjunct1, THEN mp]
  note C = zero_delta_idempotent[of "frames [0, 4] initial", THEN conjunct2, THEN conjunct1, THEN mp]
  have ra: "snapshot (animate 0 (animate 0 (frames [0, 2] initial)))
       = snapshot (animate 0 (frames [0, 2] initial))"
    using a by (intro A) simp
  have rb: "snapshot (animate 0 (animate 0 (frames [0, 61/8] initial)))
       = snapshot (animate 0 (frames [0, 61/8] initial))"
    using b bl by (intro B) simp
  have rc: "snapshot (animate 0 (animate 0 (frames [0, 4] initial)))
       = snapshot (turnTargetDisk (animate 0 (frames [0, 4] initial)))
     \<and> (leftDiskRotationY (animate 0 (frames [0, 4] initial)),
         rightDiskRotationY (animate 0 (frames [0, 4] initial)))
        = (leftDiskRotationY (turnTargetDisk (frames [0, 4] initial)),
           rightDiskRotationY (turnTargetDisk (frames [0, 4] initial)))"
    using c p by (intro C) simp
  from rc t d have d1: "leftDiskRotationY (animate 0 (frames [0, 4] initial)) = 2/10"
    by (simp add: turnTargetDisk_def)
  from rc have "leftDiskRotationY (animate 0 (animate 0 (frames [0, 4] initial)))
      = leftDiskRotationY (turnTargetDisk (animate 0 (frames [0, 4] initial)))"
    by (simp add: snapshot_def)
  with t1 d1 have d2: "leftDiskRotationY (animate 0 (animate 0 (frames [0, 4] initial))) = 3/10"
    by (simp add: turnTargetDisk_def)
  from a b bl c p d ra rb rc d1 d2 show ?thesis by simp
qed

text \<open>
  Claim C4 as stated fails in two ways. In the wrapping phase every frame turns the disk of
  the target station by 0.1, also a frame that takes no time. And when frames have stepped
  over the reset phase of earlier cycles, a tray holds 10 bundles in a reset phase, and each
  of two frames that take no time removes one.
\<close>

theorem zero_delta_counterexample:
  "activePhase (frames [0, 4] initial) = Some Wrapping
   \<and> snapshot (animate 0 (animate 0 (frames [0, 4] initial)))
       \<noteq> snapshot (animate 0 (frames [0, 4] initial))
   \<and> activePhase (frames (0 # concat (replicate 10 [59/8, 5/8]) @ [59/8, 1/4]) initial) = Some Reset
   \<and> length (leftBundles (frames (0 # concat (replicate 10 [59/8, 5/8]) @ [59/8, 1/4]) initial)) = 10
   \<and> snapshot (animate 0 (animate 0
         (frames (0 # concat (replicate 10 [59/8, 5/8]) @ [59/8, 1/4]) initial)))
       \<noteq> snapshot (animate 0 (frames (0 # concat (replicate 10 [59/8, 5/8]) @ [59/8, 1/4]) initial))"
  by (simp add: obs_eval)

subsection \<open>The target station\<close>





subsection \<open>The disks of the wrapping machines\<close>

lemma uma_disks:
  "leftDiskRotationY (updateMachineAnimation ph p lt w)
     = (if ph = Wrapping \<and> targetIsLeft w then leftDiskRotationY w + 1/10 else leftDiskRotationY w)"
  "rightDiskRotationY (updateMachineAnimation ph p lt w)
     = (if ph = Wrapping \<and> \<not> targetIsLeft w then rightDiskRotationY w + 1/10
        else rightDiskRotationY w)"
  by (cases ph; simp add: uma_defs split: option.splits)+

lemma animate_disks:
  "leftDiskRotationY (animate delta w)
     = (if map_option fst (sampled delta w) = Some Wrapping \<and> targetIsLeft (animate delta w)
        then leftDiskRotationY w + 1/10 else leftDiskRotationY w)
   \<and> rightDiskRotationY (animate delta w)
     = (if map_option fst (sampled delta w) = Some Wrapping \<and> \<not> targetIsLeft (animate delta w)
        then rightDiskRotationY w + 1/10 else rightDiskRotationY w)"
proof (cases "isPaused w")
  case True
  then show ?thesis by (simp add: animate_def sampled_def)
next
  case False
  show ?thesis
  proof (cases "sampled delta w")
    case None
    then show ?thesis using False by (simp add: animate_unfold)
  next
    case (Some s)
    obtain ph p where s: "s = (ph, p)" by (cases s)
    show ?thesis
      using False Some s by (simp add: animate_unfold uma_disks)
  qed
qed

lemma uma2_disks:
  "leftMachineDiskRotationY (updateMachineAnimation2 ph p lt w)
     = (if ph = Wrapping_process then leftMachineDiskRotationY w + 15/100
        else leftMachineDiskRotationY w)"
  "rightMachineDiskRotationY (updateMachineAnimation2 ph p lt w)
     = (if ph = Wrapping_process then rightMachineDiskRotationY w + 15/100
        else rightMachineDiskRotationY w)"
  by (cases ph;
      simp add: updateMachineAnimation2_def Let_def setJaws2_def attachLeft_def attachRight_def
        split: option.splits)+

lemma animate2_disks:
  "leftMachineDiskRotationY (animate2 delta v)
     = (if sampled2 delta v = Some Wrapping_process then leftMachineDiskRotationY v + 15/100
        else leftMachineDiskRotationY v)
   \<and> rightMachineDiskRotationY (animate2 delta v)
     = (if sampled2 delta v = Some Wrapping_process then rightMachineDiskRotationY v + 15/100
        else rightMachineDiskRotationY v)"
  by (simp add: animate2_def sampled2_def Let_def uma2_disks split: option.splits)

text \<open>
  Claim C8, amended. In the single-arm program a frame turns the disk of the target station
  by 0.1 when it samples the wrapping phase, and leaves both disks alone otherwise; in the
  two-arm program a frame turns both disks by 0.15 when it samples the wrapping phase, and
  leaves them alone otherwise. The angle counts the frames rendered in wrapping phases: it
  is not a function of elapsed time.
\<close>

theorem disk_advances_per_wrapping_frame:
  "leftDiskRotationY (animate delta w)
     = (if map_option fst (sampled delta w) = Some Wrapping \<and> targetIsLeft (animate delta w)
        then leftDiskRotationY w + 1/10 else leftDiskRotationY w)
   \<and> rightDiskRotationY (animate delta w)
     = (if map_option fst (sampled delta w) = Some Wrapping \<and> \<not> targetIsLeft (animate delta w)
        then rightDiskRotationY w + 1/10 else rightDiskRotationY w)
   \<and> leftMachineDiskRotationY (animate2 delta v)
     = (if sampled2 delta v = Some Wrapping_process then leftMachineDiskRotationY v + 15/100
        else leftMachineDiskRotationY v)
   \<and> rightMachineDiskRotationY (animate2 delta v)
     = (if sampled2 delta v = Some Wrapping_process then rightMachineDiskRotationY v + 15/100
        else rightMachineDiskRotationY v)"
  using animate_disks[of delta w] animate2_disks[of delta v] by simp

text \<open>
  Claim C8 as stated fails: two runs reach elapsed time 4.0 with different angles of the left
  disk, and while elapsed time goes from 0 to 1.0 (spawn and pick) neither disk moves.
\<close>

theorem disk_angle_counterexample:
  "cycleTime (frames [0, 4] initial) = cycleTime (frames [0, 18/5, 2/5] initial)
   \<and> leftDiskRotationY (frames [0, 4] initial) = 1/10
   \<and> leftDiskRotationY (frames [0, 18/5, 2/5] initial) = 2/10
   \<and> cycleTime (frames [0] initial) = 0 \<and> cycleTime (frames [0, 1] initial) = 1
   \<and> leftDiskRotationY (frames [0] initial) = leftDiskRotationY (frames [0, 1] initial)
   \<and> rightDiskRotationY (frames [0] initial) = rightDiskRotationY (frames [0, 1] initial)"
  by (simp add: run_eval)

subsection \<open>The scenario of the specification\<close>

lemmas custody_eval = run_eval round_eval custody_def activePhase_def

lemma custody_0:
  "custody (scenario 0) =
     (0, 0, Some Spawn,
      Some \<lparr>ident = 0, kind = Raw, parent = Scene, position = (0, 7 / 10, - 7)\<rparr>,
      False, [], [], [])"
  by (simp add: custody_eval)

lemma custody_10:
  "custody (scenario 10) =
     (9007199254740991 / 9007199254740992, 0, Some Pick,
      Some \<lparr>ident = 0, kind = Raw, parent = Scene, position = (0, 7 / 10, - 7)\<rparr>,
      False, [], [], [])"
  by (simp add: custody_eval)

lemma custody_11:
  "custody (scenario 11) =
     (4953959590107545 / 4503599627370496, 0, Some Pick,
      Some \<lparr>ident = 0, kind = Raw, parent = CenterPivot, position = (0, 1 / 5, - (19 / 4))\<rparr>,
      False, [], [], [(CenterPivot, 0)])"
  by (simp add: custody_eval)

lemma custody_49:
  "custody (scenario 49) =
     (689613692941107 / 140737488355328, 0, Some Wrapping,
      Some \<lparr>ident = 0, kind = Raw, parent = Scene, position = (- 6, 3 / 2, 0)\<rparr>,
      False, [], [],
      [(CenterPivot, 0), (CenterPivot, 0), (CenterPivot, 0), (CenterPivot, 0), (Scene, 0)])"
  by (simp add: custody_eval)

lemma custody_50:
  "custody (scenario 50) =
     (2814749767106559 / 562949953421312, 0, Some Wrapping,
      Some \<lparr>ident = 1, kind = Wrapped, parent = Scene, position = (- 6, 3 / 2, 0)\<rparr>,
      True, [], [],
      [(CenterPivot, 0), (CenterPivot, 0), (CenterPivot, 0), (CenterPivot, 0), (Scene, 0)])"
  by (simp add: custody_eval)

lemma custody_54:
  "custody (scenario 54) =
     (3039929748475083 / 562949953421312, 0, Some Wrapping,
      Some \<lparr>ident = 1, kind = Wrapped, parent = Scene, position = (- 6, 3 / 2, 0)\<rparr>,
      True, [], [],
      [(CenterPivot, 0), (CenterPivot, 0), (CenterPivot, 0), (CenterPivot, 0), (Scene, 0)])"
  by (simp add: custody_eval)

lemma custody_72:
  "custody (scenario 72) =
     (4053239664633441 / 562949953421312, 0, Some Place_in_tray,
      Some \<lparr>ident = 1, kind = Wrapped, parent = CenterPivot, position = (0, 1 / 5, - (19 / 4))\<rparr>,
      True, [], [],
      [(CenterPivot, 0), (CenterPivot, 0), (CenterPivot, 0), (CenterPivot, 0), (Scene, 0),
       (CenterPivot, 1), (CenterPivot, 1), (CenterPivot, 1)])"
  by (simp add: custody_eval)

lemma custody_73:
  "custody (scenario 73) =
     (1027383664993893 / 140737488355328, 0, Some Place_in_tray, None, False,
      [\<lparr>ident = 1, kind = Wrapped, parent = Scene, position = (- (141 / 20), 4 / 5, 73 / 20)\<rparr>],
      [],
      [(CenterPivot, 0), (CenterPivot, 0), (CenterPivot, 0), (CenterPivot, 0), (Scene, 0),
       (CenterPivot, 1), (CenterPivot, 1), (CenterPivot, 1), (Scene, 1)])"
  by (simp add: custody_eval)

lemma custody_79:
  "custody (scenario 79) =
     (2223652316014179 / 281474976710656, 0, Some Reset, None, False,
      [\<lparr>ident = 1, kind = Wrapped, parent = Scene, position = (- (141 / 20), 4 / 5, 73 / 20)\<rparr>],
      [],
      [(CenterPivot, 0), (CenterPivot, 0), (CenterPivot, 0), (CenterPivot, 0), (Scene, 0),
       (CenterPivot, 1), (CenterPivot, 1), (CenterPivot, 1), (Scene, 1)])"
  by (simp add: custody_eval)

lemma custody_80:
  "custody (scenario 80) =
     (4503599627370489 / 562949953421312, 0, Some Reset, None, False,
      [\<lparr>ident = 1, kind = Wrapped, parent = Scene, position = (- (141 / 20), 4 / 5, 73 / 20)\<rparr>],
      [],
      [(CenterPivot, 0), (CenterPivot, 0), (CenterPivot, 0), (CenterPivot, 0), (Scene, 0),
       (CenterPivot, 1), (CenterPivot, 1), (CenterPivot, 1), (Scene, 1)])"
  by (simp add: custody_eval)

lemma custody_81:
  "custody (scenario 81) =
     (1139973655678155 / 140737488355328, 1, Some Spawn, None, False,
      [\<lparr>ident = 1, kind = Wrapped, parent = Scene, position = (- (141 / 20), 4 / 5, 73 / 20)\<rparr>],
      [],
      [(CenterPivot, 0), (CenterPivot, 0), (CenterPivot, 0), (CenterPivot, 0), (Scene, 0),
       (CenterPivot, 1), (CenterPivot, 1), (CenterPivot, 1), (Scene, 1)])"
  by (simp add: custody_eval)

lemma custodyD:
  assumes "custody w = (e, c, ph, cur, wr, ls, rs, calls)"
  shows "cycleTime w = e" "cycleCount w = c" "activePhase w = ph" "currentBundle w = cur"
    "currentBundleIsWrapped w = wr" "leftBundles w = ls" "rightBundles w = rs"
    "attachCalls w = calls"
  using assms by (simp_all add: custody_def)

text \<open>
  Claim C1, on the code. In the scenario the pick phase is sampled on the frames 5 to 14
  (elapsed 0.5 to 1.4). No \<open>attach\<close> was called before it; at its end the arm has attached
  the bundle four times, once per frame past the threshold (frames 11 to 14). By the end of
  the cycle the exit phase has attached the wrapped bundle three times (frames 58 to 60),
  whereas the insert and the place phase each re-parented their bundle to the scene once.
  In the two-arm program, stepped in the same way, no arm has attached its bundle after 9
  frames, and each arm has attached it seven times by the end of the pick phase (frames 18
  to 24).
\<close>

theorem pick_attaches_on_every_frame:
  "attachCalls (scenario 4) = []
   \<and> attachCalls (scenario 14) = [(CenterPivot, 0), (CenterPivot, 0), (CenterPivot, 0), (CenterPivot, 0)]
   \<and> attachCalls (scenario 79)
       = [(CenterPivot, 0), (CenterPivot, 0), (CenterPivot, 0), (CenterPivot, 0), (Scene, 0),
          (CenterPivot, 1), (CenterPivot, 1), (CenterPivot, 1), (Scene, 1)]
   \<and> attachCalls2 (scenario2 9) = []
   \<and> attachCalls2 (scenario2 24)
       = [(LeftArmPivot, 0), (RightArmPivot, 1), (LeftArmPivot, 0), (RightArmPivot, 1),
          (LeftArmPivot, 0), (RightArmPivot, 1), (LeftArmPivot, 0), (RightArmPivot, 1),
          (LeftArmPivot, 0), (RightArmPivot, 1), (LeftArmPivot, 0), (RightArmPivot, 1),
          (LeftArmPivot, 0), (RightArmPivot, 1)]"
proof -
  have a: "attachCalls (scenario 4) = []"
    by (simp add: run_eval round_eval)
  have b: "attachCalls (scenario 14)
           = [(CenterPivot, 0), (CenterPivot, 0), (CenterPivot, 0), (CenterPivot, 0)]"
    by (simp add: run_eval round_eval)
  have c: "attachCalls2 (scenario2 9) = []"
    by (simp add: run_eval2 round_eval)
  have d: "attachCalls2 (scenario2 24)
       = [(LeftArmPivot, 0), (RightArmPivot, 1), (LeftArmPivot, 0), (RightArmPivot, 1),
          (LeftArmPivot, 0), (RightArmPivot, 1), (LeftArmPivot, 0), (RightArmPivot, 1),
          (LeftArmPivot, 0), (RightArmPivot, 1), (LeftArmPivot, 0), (RightArmPivot, 1),
          (LeftArmPivot, 0), (RightArmPivot, 1)]"
    by (simp add: run_eval2 round_eval)
  from a b c d custodyD(8)[OF custody_79] show ?thesis by simp
qed

text \<open>
  Claim C7, amended. In the scenario (alternating target, 0.1 s per frame, elapsed time
  summed in double precision as the loop does): a raw bundle is on the top station at
  elapsed 0; after 10 frames elapsed time is just below 1 and the bundle is still a child of
  the scene, after 11 frames it is attached to the arm; it is unwrapped after 49 frames and
  wrapped after 50 (and after 54); the left tray is empty after 72 frames and holds the
  wrapped bundle at slot (0, 0) after 73, the right tray being empty and no bundle in
  flight; after 80 frames elapsed time is \<open>8 - 7 / 2 ^ 49\<close> (7.999999999999988), the phase is
  reset and the cycle count still 0; the cycle count is 1 after 81 frames, and that frame,
  at spawn progress 0.2, creates no bundle.
\<close>

theorem scenario_cycle:
  "currentBundle (scenario 0)
     = Some \<lparr>ident = 0, kind = Raw, parent = Scene, position = (0, 7/10, -7)\<rparr>
   \<and> cycleTime (scenario 10) < 1
   \<and> map_option parent (currentBundle (scenario 10)) = Some Scene
   \<and> map_option parent (currentBundle (scenario 11)) = Some CenterPivot
   \<and> \<not> currentBundleIsWrapped (scenario 49)
   \<and> currentBundleIsWrapped (scenario 50)
   \<and> map_option kind (currentBundle (scenario 50)) = Some Wrapped
   \<and> currentBundleIsWrapped (scenario 54)
   \<and> leftBundles (scenario 72) = []
   \<and> leftBundles (scenario 73)
       = [\<lparr>ident = 1, kind = Wrapped, parent = Scene, position = slotPosition leftTray 0\<rparr>]
   \<and> slotRow 0 = 0 \<and> slotCol 0 = 0
   \<and> rightBundles (scenario 73) = [] \<and> currentBundle (scenario 73) = None
   \<and> cycleCount (scenario 79) = 0
   \<and> cycleTime (scenario 80) = 8 - 7 / 2 ^ 49
   \<and> activePhase (scenario 80) = Some Reset \<and> cycleCount (scenario 80) = 0
   \<and> cycleCount (scenario 81) = 1 \<and> activePhase (scenario 81) = Some Spawn
   \<and> currentBundle (scenario 81) = None"
  using custodyD[OF custody_0] custodyD[OF custody_10] custodyD[OF custody_11]
    custodyD[OF custody_49] custodyD[OF custody_50] custodyD[OF custody_54]
    custodyD[OF custody_72] custodyD[OF custody_73] custodyD[OF custody_79]
    custodyD[OF custody_80] custodyD[OF custody_81]
  by (simp add: slotPosition_def leftTray_def slotRow_def slotCol_def)

text \<open>
  Claim C7 as stated fails: after 10 frames (elapsed just below 1.0, the last sample not
  after 1.0) the bundle is not attached to the arm; at the last sample before 7.25, after 72
  frames, the left tray is empty; and after 80 frames elapsed time is below 8 and the cycle
  count is 0.
\<close>

theorem scenario_counterexample:
  "cycleTime (scenario 10) \<le> 1 \<and> 1 < cycleTime (scenario 11)
   \<and> map_option parent (currentBundle (scenario 10)) \<noteq> Some CenterPivot
   \<and> cycleTime (scenario 72) \<le> 725/100 \<and> 725/100 < cycleTime (scenario 73)
   \<and> leftBundles (scenario 72) = []
   \<and> cycleTime (scenario 80) < 8 \<and> cycleCount (scenario 80) = 0"
  using custodyD[OF custody_10] custodyD[OF custody_11] custodyD[OF custody_72]
    custodyD[OF custody_73] custodyD[OF custody_80]
  by simp

subsection \<open>The ninth bundle of a tray\<close>

lemma nine_in_the_left_tray:
  "map position (leftBundles (eightFps 571)) = map (slotPosition leftTray) [0, 1, 2, 3, 4, 5, 6, 7, 8]"
  by (simp add: run_eval cong: Let_arg_cong)

text \<open>
  Claim C9. When the target tray holds 8 bundles, the place phase puts the bundle in the
  gripper at slot index 8, that is row 2, column 0: a row that the tray (rows 0 and 1) does
  not have, 1.05 beyond the tray's centre in \<open>z\<close>. Such a state is reached: after 571 frames
  at eight frames per second the left tray holds nine bundles, at the slots 0 to 8.
\<close>

theorem ninth_item_beyond_last_row:
  assumes "currentBundle w = Some b" "1/2 < easeInOutCubic p" "length (targetTray w) = 8"
  shows "targetTray (updateMachineAnimation Place_in_tray p lt w)
           = targetTray w @ [b\<lparr>parent := Scene, position := slotPosition (targetTrayCfg w) 8\<rparr>]
    \<and> slotRow 8 = 2 \<and> slotCol 8 = 0
    \<and> \<not> slotRow 8 < rows (targetTrayCfg w)
    \<and> slotPosition (targetTrayCfg w) 8
        = (x (targetTrayCfg w) - 105/100, y (targetTrayCfg w) + 6/10, z (targetTrayCfg w) + 105/100)
    \<and> (\<exists>n. map position (leftBundles (eightFps n))
              = map (slotPosition leftTray) [0, 1, 2, 3, 4, 5, 6, 7, 8])"
proof -
  have ex: "\<exists>n. map position (leftBundles (eightFps n))
              = map (slotPosition leftTray) [0, 1, 2, 3, 4, 5, 6, 7, 8]"
    using nine_in_the_left_tray by (rule exI)
  have pl: "targetTray (updateMachineAnimation Place_in_tray p lt w)
           = targetTray w @ [b\<lparr>parent := Scene, position := slotPosition (targetTrayCfg w) 8\<rparr>]"
    using place_appends[OF assms(1,2), of lt] assms(3) by simp
  have sl: "slotRow 8 = 2 \<and> slotCol 8 = 0 \<and> \<not> slotRow 8 < rows (targetTrayCfg w)
    \<and> slotPosition (targetTrayCfg w) 8
        = (x (targetTrayCfg w) - 105/100, y (targetTrayCfg w) + 6/10, z (targetTrayCfg w) + 105/100)"
    by (simp add: slotRow_def slotCol_def slotPosition_def targetTrayCfg_def leftTray_def
        rightTray_def)
  from pl sl ex show ?thesis by blast
qed

lemma before_the_ninth:
  "(currentBundle (eightFps 570), map ident (leftBundles (eightFps 570)),
    targetIsLeft (eightFps 570))
   = (Some \<lparr>ident = 17, kind = Wrapped, parent = CenterPivot, position = (0, 1/5, -(19/4))\<rparr>,
      [1, 3, 5, 7, 9, 11, 13, 15], True)"
  by (simp add: run_eval cong: Let_arg_cong)

theorem ninth_item_beyond_last_row_witness:
  "currentBundle (eightFps 570)
     = Some \<lparr>ident = 17, kind = Wrapped, parent = CenterPivot, position = (0, 1/5, -(19/4))\<rparr>
   \<and> 1/2 < easeInOutCubic (3/4)
   \<and> length (targetTray (eightFps 570)) = 8
   \<and> targetTray (updateMachineAnimation Place_in_tray (3/4) (59/8) (eightFps 570))
       = targetTray (eightFps 570)
         @ [\<lparr>ident = 17, kind = Wrapped, parent = Scene, position = (-(705/100), 8/10, 505/100)\<rparr>]"
proof -
  from before_the_ninth have c: "currentBundle (eightFps 570)
     = Some \<lparr>ident = 17, kind = Wrapped, parent = CenterPivot, position = (0, 1/5, -(19/4))\<rparr>"
    and i: "map ident (leftBundles (eightFps 570)) = [1, 3, 5, 7, 9, 11, 13, 15]"
    and tl: "targetIsLeft (eightFps 570)"
    by simp_all
  have e: "1/2 < easeInOutCubic (3/4)" by (simp add: easeInOutCubic_def power3_eq_cube)
  from arg_cong[OF i, of length] tl have l: "length (targetTray (eightFps 570)) = 8"
    by (simp add: targetTray_def)
  note th = ninth_item_beyond_last_row[OF c e l, of "59/8"]
  from th[THEN conjunct1] c e l tl show ?thesis
    by (simp add: targetTrayCfg_def slotPosition_def slotRow_def slotCol_def leftTray_def)
qed

end
